theory Spec2Isabelle
  imports Main "HOL-Library.List_Lexorder" "HOL-Library.Product_Lexorder"
begin

section \<open>Strings\<close>

text \<open>
  A Python \<open>str\<close> is a sequence of Unicode code points; it is modelled as a list of
  natural numbers, one per code point. SQLite compares \<open>TEXT\<close> values under its default
  \<open>BINARY\<close> collation byte by byte on their UTF-8 encoding, which orders strings as the
  lexicographic order on code points does (the order of \<open>HOL-Library.List_Lexorder\<close>).
\<close>

type_synonym str = "nat list"

definition str_of :: "string \<Rightarrow> str" where
  "str_of s = map of_char s"

text \<open>
  A table of lower case for Basic Latin, Latin-1 and the Cyrillic block up to U+042F.
  It is not \<open>str.lower()\<close>, which is a parameter of the model (\<open>str_lower\<close> below).
  It is used in two places. In \<open>answer_received\<close> it decides whether the lower case of
  a text contains one of the two labels: the only code points whose lower case has a
  letter of the labels are those letters and their capitals, which the table has, so
  the test comes out as with \<open>str.lower()\<close>. And it is the \<open>str_lower\<close> of the
  library that the examples are computed with.
\<close>

definition lower_cp :: "nat \<Rightarrow> nat" where
  "lower_cp c =
     (if 65 \<le> c \<and> c \<le> 90 then c + 32
      else if 192 \<le> c \<and> c \<le> 222 \<and> c \<noteq> 215 then c + 32
      else if 1024 \<le> c \<and> c \<le> 1039 then c + 80
      else if 1040 \<le> c \<and> c \<le> 1071 then c + 32
      else c)"

definition lower :: "str \<Rightarrow> str" where
  "lower s = map lower_cp s"

section \<open>Dates and times\<close>

text \<open>
  A naive \<open>datetime\<close>. Python orders two of them by their fields, year first. The class
  only ever holds a valid date and time (\<open>valid_datetime\<close>): its constructor raises
  \<open>ValueError\<close> otherwise.
\<close>

record datetime =
  year :: nat
  month :: nat
  day :: nat
  hour :: nat
  minute :: nat
  second :: nat
  microsecond :: nat

definition dt_key :: "datetime \<Rightarrow> nat \<times> nat \<times> nat \<times> nat \<times> nat \<times> nat \<times> nat" where
  "dt_key d = (year d, month d, day d, hour d, minute d, second d, microsecond d)"

definition dt_le :: "datetime \<Rightarrow> datetime \<Rightarrow> bool" where
  "dt_le a b \<longleftrightarrow> dt_key a \<le> dt_key b"

definition is_leap :: "nat \<Rightarrow> bool" where
  "is_leap y \<longleftrightarrow> y mod 4 = 0 \<and> (y mod 100 \<noteq> 0 \<or> y mod 400 = 0)"

definition days_in_month :: "nat \<Rightarrow> nat \<Rightarrow> nat" where
  "days_in_month y m =
     (if m = 2 then (if is_leap y then 29 else 28)
      else if m = 4 \<or> m = 6 \<or> m = 9 \<or> m = 11 then 30 else 31)"

definition valid_datetime :: "datetime \<Rightarrow> bool" where
  "valid_datetime d \<longleftrightarrow>
     1 \<le> year d \<and> year d \<le> 9999 \<and> 1 \<le> month d \<and> month d \<le> 12
     \<and> 1 \<le> day d \<and> day d \<le> days_in_month (year d) (month d)
     \<and> hour d < 24 \<and> minute d < 60 \<and> second d < 60 \<and> microsecond d < 1000000"

datatype py_error = OverflowError

text \<open>
  \<open>now + timedelta(days=n)\<close>. \<open>timedelta\<close> raises \<open>OverflowError\<close> beyond
  999999999 days, and the sum does when it leaves the years 1 to 9999.
\<close>

definition next_day :: "datetime \<Rightarrow> datetime" where
  "next_day d =
     (if day d < days_in_month (year d) (month d) then d\<lparr>day := day d + 1\<rparr>
      else if month d < 12 then d\<lparr>month := month d + 1, day := 1\<rparr>
      else d\<lparr>year := year d + 1, month := 1, day := 1\<rparr>)"

definition prev_day :: "datetime \<Rightarrow> datetime" where
  "prev_day d =
     (if 1 < day d then d\<lparr>day := day d - 1\<rparr>
      else if 1 < month d
        then d\<lparr>month := month d - 1, day := days_in_month (year d) (month d - 1)\<rparr>
      else d\<lparr>year := year d - 1, month := 12, day := 31\<rparr>)"

definition add_days :: "datetime \<Rightarrow> int \<Rightarrow> py_error + datetime" where
  "add_days d n =
     (if 999999999 < \<bar>n\<bar> then Inl OverflowError
      else let r = (if 0 \<le> n then (next_day ^^ nat n) d else (prev_day ^^ nat (- n)) d)
           in if 1 \<le> year r \<and> year r \<le> 9999 then Inr r else Inl OverflowError)"

text \<open>
  \<open>isoformat()\<close>: \<open>YYYY-MM-DDTHH:MM:SS\<close>, followed by \<open>.ffffff\<close> when the
  microseconds are not zero. \<open>pad k n\<close> writes \<open>n\<close>, a number below \<open>10 ^ k\<close>,
  in \<open>k\<close> decimal digits.
\<close>

fun pad :: "nat \<Rightarrow> nat \<Rightarrow> str" where
  "pad 0 n = []"
| "pad (Suc k) n = (48 + (n div 10 ^ k) mod 10) # pad k n"

definition isoformat :: "datetime \<Rightarrow> str" where
  "isoformat d =
     pad 4 (year d) @ [45] @ pad 2 (month d) @ [45] @ pad 2 (day d) @ [84]
       @ pad 2 (hour d) @ [58] @ pad 2 (minute d) @ [58] @ pad 2 (second d)
       @ (if microsecond d = 0 then [] else [46] @ pad 6 (microsecond d))"

text \<open>
  \<open>parse_isoformat\<close> reads back what \<open>isoformat()\<close> writes, and nothing else: it is
  the inverse of \<open>isoformat\<close> on the valid dates. It serves to say that a stored
  string is an \<open>isoformat()\<close> string (\<open>canonical_dates\<close> below). It is not the
  library's \<open>datetime.fromisoformat\<close>, which reads further spellings too and is a
  parameter of the model.
\<close>

definition digit_val :: "nat \<Rightarrow> nat option" where
  "digit_val c = (if 48 \<le> c \<and> c \<le> 57 then Some (c - 48) else None)"

fun parse_digits :: "str \<Rightarrow> nat \<Rightarrow> nat option" where
  "parse_digits [] acc = Some acc"
| "parse_digits (c # s) acc =
     (case digit_val c of None \<Rightarrow> None | Some v \<Rightarrow> parse_digits s (10 * acc + v))"

definition take_num :: "nat \<Rightarrow> str \<Rightarrow> (nat \<times> str) option" where
  "take_num k s =
     (if length s < k then None
      else map_option (\<lambda>v. (v, drop k s)) (parse_digits (take k s) 0))"

definition expect :: "nat \<Rightarrow> str \<Rightarrow> str option" where
  "expect c s = (case s of [] \<Rightarrow> None | x # r \<Rightarrow> if x = c then Some r else None)"

definition parse_fraction :: "str \<Rightarrow> nat option" where
  "parse_fraction s =
     (if s = [] then Some 0
      else Option.bind (expect 46 s) (\<lambda>s.
           Option.bind (take_num 6 s) (\<lambda>(us, s).
           if s = [] then Some us else None)))"

definition parse_isoformat :: "str \<Rightarrow> datetime option" where
  "parse_isoformat s =
     Option.bind (take_num 4 s) (\<lambda>(y, s).
     Option.bind (expect 45 s) (\<lambda>s.
     Option.bind (take_num 2 s) (\<lambda>(m, s).
     Option.bind (expect 45 s) (\<lambda>s.
     Option.bind (take_num 2 s) (\<lambda>(dd, s).
     Option.bind (expect 84 s) (\<lambda>s.
     Option.bind (take_num 2 s) (\<lambda>(h, s).
     Option.bind (expect 58 s) (\<lambda>s.
     Option.bind (take_num 2 s) (\<lambda>(mi, s).
     Option.bind (expect 58 s) (\<lambda>s.
     Option.bind (take_num 2 s) (\<lambda>(se, s).
     Option.bind (parse_fraction s) (\<lambda>us.
       let d = \<lparr>year = y, month = m, day = dd, hour = h, minute = mi, second = se,
                microsecond = us\<rparr>
       in if valid_datetime d then Some d else None))))))))))))"

section \<open>The library\<close>

text \<open>
  Three functions of the Python library depend on the tables of the Unicode character
  database, or accept more inputs than the program ever writes. They are parameters of
  the model, so that what is proved holds for the library whatever its tables are:
  \<^item> \<open>str_lower\<close> is \<open>str.lower()\<close>;
  \<^item> \<open>decimal\<close> gives the value of a code point that is a decimal digit, and
    \<open>None\<close> for every other code point: the digits are what \<open>\d\<close> matches in a
    regular expression over \<open>str\<close>, and the value is what \<open>int()\<close> reads;
  \<^item> \<open>fromisoformat\<close> is \<open>datetime.fromisoformat\<close>, \<open>None\<close> standing for its
    \<open>ValueError\<close> or \<open>TypeError\<close>.
  Two facts about the library are used where a theorem needs them. Below 128 the
  decimal digits are \<open>0\<close> to \<open>9\<close> (\<open>ascii_digits\<close>). And \<open>fromisoformat\<close>
  reads back what \<open>isoformat()\<close> writes (\<open>reads_isoformat\<close>).
\<close>

record library =
  str_lower :: "str \<Rightarrow> str"
  decimal :: "nat \<Rightarrow> nat option"
  fromisoformat :: "str \<Rightarrow> datetime option"

definition ascii_digits :: "library \<Rightarrow> bool" where
  "ascii_digits lib \<longleftrightarrow>
     (\<forall>c < 128. decimal lib c = (if 48 \<le> c \<and> c \<le> 57 then Some (c - 48) else None))"

definition reads_isoformat :: "library \<Rightarrow> bool" where
  "reads_isoformat lib \<longleftrightarrow>
     (\<forall>d. valid_datetime d \<longrightarrow> fromisoformat lib (isoformat d) = Some d)"

text \<open>
  A library to compute the examples with: the table \<open>lower\<close>, the digits \<open>0\<close> to
  \<open>9\<close>, and \<open>parse_isoformat\<close>. It has the two properties above
  (\<open>model_library_ascii_digits\<close>, \<open>model_library_reads_isoformat\<close>). The examples
  stay where it computes what the Python library computes: their texts are of Basic
  Latin and the Cyrillic letters of the labels, and the dates read back are
  \<open>isoformat()\<close> strings, or a text that is no ISO 8601 date at all.
\<close>

definition model_library :: library where
  "model_library =
     \<lparr>str_lower = lower, decimal = digit_val, fromisoformat = parse_isoformat\<rparr>"

section \<open>The database\<close>

text \<open>
  Each table is the list of its rows in \<open>id\<close> order: \<open>id\<close> is \<open>AUTOINCREMENT\<close>, so
  a new row goes to the end, and a scan without \<open>ORDER BY\<close> visits the rows from the
  front. The columns \<open>id\<close> and \<open>created_at\<close> are kept only where a query reads them
  (the digests).

  Every method of \<open>Database\<close> runs its statements inside
  \<open>try: ... except sqlite3.Error\<close>. The first argument \<open>ok\<close> of each method below
  says whether SQLite carried the statements out (\<open>True\<close>) or raised
  \<open>sqlite3.Error\<close> (\<open>False\<close>); in the second case nothing was committed.
\<close>

record qa_row =
  question :: str
  answer :: str

record contact_row =
  name :: str
  info :: str

record event_row =
  ev_name :: str
  event_date :: str
  description :: "str option"
  notified :: bool

record digest_row =
  content :: str
  created_at :: nat

record database =
  company_info :: "qa_row list"
  contacts :: "contact_row list"
  events :: "event_row list"
  digests :: "digest_row list"

text \<open>\<open>cursor.fetchone()\<close>: the first row of the result set, or \<open>None\<close>.\<close>

definition fetchone :: "'a list \<Rightarrow> 'a option" where
  "fetchone rows = (case rows of [] \<Rightarrow> None | r # _ \<Rightarrow> Some r)"

subsection \<open>Questions and answers\<close>

text \<open>
  \<open>INSERT OR REPLACE\<close> on the \<open>UNIQUE\<close> column \<open>question\<close>: the rows in conflict
  with the new one are deleted, then the new row is inserted.
\<close>

definition add_company_info ::
  "library \<Rightarrow> bool \<Rightarrow> database \<Rightarrow> str \<Rightarrow> str \<Rightarrow> bool \<times> database" where
  "add_company_info lib ok db q a =
     (if ok
      then (True, db\<lparr>company_info :=
              [r \<leftarrow> company_info db. question r \<noteq> str_lower lib q]
                @ [\<lparr>question = str_lower lib q, answer = a\<rparr>]\<rparr>)
      else (False, db))"

definition get_company_info :: "library \<Rightarrow> bool \<Rightarrow> database \<Rightarrow> str \<Rightarrow> str option" where
  "get_company_info lib ok db q =
     (if ok
      then (case fetchone [r \<leftarrow> company_info db. question r = str_lower lib q] of
              None \<Rightarrow> None
            | Some result \<Rightarrow> Some (answer result))
      else None)"

subsection \<open>Contacts\<close>

definition add_contact :: "bool \<Rightarrow> database \<Rightarrow> str \<Rightarrow> str \<Rightarrow> bool \<times> database" where
  "add_contact ok db n i =
     (if ok
      then (True, db\<lparr>contacts := contacts db @ [\<lparr>name = n, info = i\<rparr>]\<rparr>)
      else (False, db))"

definition get_contacts :: "bool \<Rightarrow> database \<Rightarrow> contact_row list" where
  "get_contacts ok db =
     (if ok then [\<lparr>name = name row, info = info row\<rparr>. row \<leftarrow> sort_key name (contacts db)]
      else [])"

text \<open>
  The operator \<open>LIKE\<close> of SQLite, as \<open>search_contact\<close> uses it: no \<open>ESCAPE\<close>
  clause, and \<open>PRAGMA case_sensitive_like\<close> left off. In the pattern \<open>%\<close> (37) stands
  for any run of characters and \<open>_\<close> (95) for any one character; every other character
  stands for itself, two characters below 128 being taken as equal when they are the
  same letter in upper and lower case. Both operands are read as C strings, so each ends
  at its first U+0000.
\<close>

definition sqlite_tolower :: "nat \<Rightarrow> nat" where
  "sqlite_tolower c = (if 65 \<le> c \<and> c \<le> 90 then c + 32 else c)"

definition like_eq :: "nat \<Rightarrow> nat \<Rightarrow> bool" where
  "like_eq c c2 \<longleftrightarrow> c = c2 \<or> (c < 128 \<and> c2 < 128 \<and> sqlite_tolower c = sqlite_tolower c2)"

fun like_match :: "str \<Rightarrow> str \<Rightarrow> bool" where
  "like_match [] s = (s = [])"
| "like_match (c # p) [] = (c = 37 \<and> like_match p [])"
| "like_match (c # p) (c2 # s) =
     (if c = 37 then like_match p (c2 # s) \<or> like_match (c # p) s
      else (c = 95 \<or> like_eq c c2) \<and> like_match p s)"

definition cstr :: "str \<Rightarrow> str" where
  "cstr s = takeWhile (\<lambda>c. c \<noteq> 0) s"

definition like :: "str \<Rightarrow> str \<Rightarrow> bool" where
  "like pattern s = like_match (cstr pattern) (cstr s)"

text \<open>The pattern is the f-string \<open>f'%{name}%'\<close>.\<close>

definition search_contact :: "bool \<Rightarrow> database \<Rightarrow> str \<Rightarrow> contact_row option" where
  "search_contact ok db n =
     (if ok
      then (case fetchone [r \<leftarrow> contacts db. like ([37] @ n @ [37]) (name r)] of
              None \<Rightarrow> None
            | Some result \<Rightarrow> Some \<lparr>name = name result, info = info result\<rparr>)
      else None)"

text \<open>The Python operator \<open>sub in s\<close> on strings, and \<open>s.startswith(sub)\<close>.\<close>

fun startswith :: "str \<Rightarrow> str \<Rightarrow> bool" where
  "startswith s [] = True"
| "startswith [] (p # ps) = False"
| "startswith (c # s) (p # ps) = (c = p \<and> startswith s ps)"

fun contains :: "str \<Rightarrow> str \<Rightarrow> bool" where
  "contains [] sub = (sub = [])"
| "contains (c # s) sub = (startswith (c # s) sub \<or> contains s sub)"

section \<open>Events\<close>

text \<open>The dictionaries that \<open>get_upcoming_events\<close> returns.\<close>

record event =
  evt_name :: str
  evt_date :: datetime
  evt_description :: str

definition add_event :: "bool \<Rightarrow> database \<Rightarrow> str \<Rightarrow> datetime \<Rightarrow> str \<Rightarrow> bool \<times> database" where
  "add_event ok db n d descr =
     (if ok
      then (let event_date_str = isoformat d
            in (True, db\<lparr>events := events db @
                  [\<lparr>ev_name = n, event_date = event_date_str, description = Some descr,
                    notified = False\<rparr>]\<rparr>))
      else (False, db))"

text \<open>
  The loop over the fetched rows: a row whose date does not parse is logged and
  skipped (\<open>except (ValueError, TypeError): continue\<close>); \<open>row['description'] or ''\<close>
  turns \<open>NULL\<close> into the empty string.
\<close>

fun events_loop :: "library \<Rightarrow> event_row list \<Rightarrow> event list" where
  "events_loop lib [] = []"
| "events_loop lib (row # results) =
     (case fromisoformat lib (event_date row) of
        None \<Rightarrow> events_loop lib results
      | Some d \<Rightarrow>
          \<lparr>evt_name = ev_name row, evt_date = d,
            evt_description = (case description row of None \<Rightarrow> [] | Some t \<Rightarrow> t)\<rparr>
          # events_loop lib results)"

text \<open>
  \<open>get_upcoming_events\<close>. The column \<open>event_date\<close> holds text, and the two bounds are
  bound as text, so \<open>>=\<close>, \<open><=\<close> and \<open>ORDER BY\<close> compare strings. \<open>now\<close> is the
  value of \<open>datetime.now()\<close>. The \<open>OverflowError\<close> of the window's end is not an
  \<open>sqlite3.Error\<close> and leaves the method; \<open>ok = False\<close> stands for a failure of
  \<open>get_connection()\<close>, which comes first.
\<close>

definition get_upcoming_events ::
  "library \<Rightarrow> bool \<Rightarrow> datetime \<Rightarrow> int option \<Rightarrow> database \<Rightarrow> py_error + event list" where
  "get_upcoming_events lib ok now days db =
     (if \<not> ok then Inr []
      else let now_str = isoformat now in
        (case days of
           Some n \<Rightarrow>
             (case add_days now n of
                Inl e \<Rightarrow> Inl e
              | Inr end_date \<Rightarrow>
                  let end_date_str = isoformat end_date
                  in Inr (events_loop lib (sort_key event_date
                       [r \<leftarrow> events db. now_str \<le> event_date r \<and> event_date r \<le> end_date_str
                          \<and> \<not> notified r])))
         | None \<Rightarrow>
             Inr (events_loop lib (sort_key event_date
               [r \<leftarrow> events db. now_str \<le> event_date r \<and> \<not> notified r]))))"

definition mark_event_notified ::
  "bool \<Rightarrow> database \<Rightarrow> str \<Rightarrow> datetime \<Rightarrow> bool \<times> database" where
  "mark_event_notified ok db event_name d =
     (if ok
      then (let event_date_str = isoformat d
            in (True, db\<lparr>events :=
                  map (\<lambda>r. if ev_name r = event_name \<and> event_date r = event_date_str
                           then r\<lparr>notified := True\<rparr> else r) (events db)\<rparr>))
      else (False, db))"

text \<open>
  The event dates that \<open>add_event\<close> writes are \<open>isoformat()\<close> strings. A table all
  of whose dates parse back to the very string stored has only such dates.
\<close>

definition canonical_dates :: "database \<Rightarrow> bool" where
  "canonical_dates db \<longleftrightarrow>
     (\<forall>r \<in> set (events db).
        case parse_isoformat (event_date r) of
          None \<Rightarrow> False
        | Some d \<Rightarrow> isoformat d = event_date r)"

subsection \<open>Digests\<close>

text \<open>
  \<open>created_at\<close> is the second in which the row was inserted (\<open>CURRENT_TIMESTAMP\<close>),
  passed in as \<open>ts\<close>. \<open>ORDER BY created_at DESC\<close> puts the latest second first and
  leaves the digests of one second in the order of their insertion: a stable sort on
  the negated second. A negative \<open>LIMIT\<close> is no limit.
\<close>

definition add_digest :: "bool \<Rightarrow> nat \<Rightarrow> database \<Rightarrow> str \<Rightarrow> bool \<times> database" where
  "add_digest ok ts db c =
     (if ok
      then (True, db\<lparr>digests := digests db @ [\<lparr>content = c, created_at = ts\<rparr>]\<rparr>)
      else (False, db))"

definition get_recent_digests :: "bool \<Rightarrow> database \<Rightarrow> int \<Rightarrow> str list" where
  "get_recent_digests ok db limit =
     (if ok
      then (let results = sort_key (\<lambda>row. - int (created_at row)) (digests db)
            in map content (if limit < 0 then results else take (nat limit) results))
      else [])"

section \<open>Text handling of the dialogs\<close>

text \<open>
  The white space of \<open>str.strip()\<close> and of \<open>\s\<close> in a regular expression over
  \<open>str\<close>: the code points for which \<open>str.isspace()\<close> holds.
\<close>

definition isspace :: "nat \<Rightarrow> bool" where
  "isspace c \<longleftrightarrow>
     (9 \<le> c \<and> c \<le> 13) \<or> (28 \<le> c \<and> c \<le> 32) \<or> c = 133 \<or> c = 160 \<or> c = 5760
     \<or> (8192 \<le> c \<and> c \<le> 8202) \<or> c = 8232 \<or> c = 8233 \<or> c = 8239 \<or> c = 8287
     \<or> c = 12288"

definition strip :: "str \<Rightarrow> str" where
  "strip s = rev (dropWhile isspace (rev (dropWhile isspace s)))"

subsection \<open>\<open>datetime.strptime(date_str, "%d.%m.%Y %H:%M")\<close>\<close>

text \<open>
  \<open>strptime\<close> turns the format into the regular expression
  \<^verbatim>\<open>(3[0-1]|[1-2]\d|0[1-9]|[1-9]| [1-9])\.(1[0-2]|0[1-9]|[1-9])\.(\d\d\d\d)\s+(2[0-3]|[0-1]\d|\d):([0-5]\d|\d)\<close>,
  matches it at the start of the text, and raises \<open>ValueError\<close> when it does not
  match, when text remains after the match, or when the fields are no date. Each part
  of the expression is modelled by the list of the ways it can match, in the order in
  which the matcher tries them: the number that \<open>int()\<close> reads from the matched text,
  and the text that remains. A class such as \<open>[1-2]\<close> matches the characters \<open>1\<close>
  to \<open>2\<close> only (\<open>cls\<close>); \<open>\d\<close> matches every decimal digit of the library
  (\<open>decimal\<close>).
\<close>

definition cls :: "nat \<Rightarrow> nat \<Rightarrow> nat \<Rightarrow> nat option" where
  "cls lo hi c = (if 48 + lo \<le> c \<and> c \<le> 48 + hi then Some (c - 48) else None)"

definition two :: "(nat \<Rightarrow> nat option) \<Rightarrow> (nat \<Rightarrow> nat option) \<Rightarrow> str \<Rightarrow> (nat \<times> str) list" where
  "two p1 p2 s =
     (case s of
        x # y # r \<Rightarrow>
          (case (p1 x, p2 y) of (Some a, Some b) \<Rightarrow> [(10 * a + b, r)] | _ \<Rightarrow> [])
      | _ \<Rightarrow> [])"

definition one :: "(nat \<Rightarrow> nat option) \<Rightarrow> str \<Rightarrow> (nat \<times> str) list" where
  "one p s = (case s of x # r \<Rightarrow> (case p x of Some a \<Rightarrow> [(a, r)] | None \<Rightarrow> []) | [] \<Rightarrow> [])"

definition directive_d :: "library \<Rightarrow> str \<Rightarrow> (nat \<times> str) list" where
  "directive_d lib s =
     two (cls 3 3) (cls 0 1) s @ two (cls 1 2) (decimal lib) s @ two (cls 0 0) (cls 1 9) s
       @ one (cls 1 9) s
       @ (case s of x # r \<Rightarrow> if x = 32 then one (cls 1 9) r else [] | [] \<Rightarrow> [])"

definition directive_m :: "str \<Rightarrow> (nat \<times> str) list" where
  "directive_m s = two (cls 1 1) (cls 0 2) s @ two (cls 0 0) (cls 1 9) s @ one (cls 1 9) s"

definition directive_Y :: "library \<Rightarrow> str \<Rightarrow> (nat \<times> str) list" where
  "directive_Y lib s =
     (case s of
        x1 # x2 # x3 # x4 # r \<Rightarrow>
          (case (decimal lib x1, decimal lib x2, decimal lib x3, decimal lib x4) of
             (Some a, Some b, Some c, Some d) \<Rightarrow> [(1000 * a + 100 * b + 10 * c + d, r)]
           | _ \<Rightarrow> [])
      | _ \<Rightarrow> [])"

definition directive_H :: "library \<Rightarrow> str \<Rightarrow> (nat \<times> str) list" where
  "directive_H lib s =
     two (cls 2 2) (cls 0 3) s @ two (cls 0 1) (decimal lib) s @ one (decimal lib) s"

definition directive_M :: "library \<Rightarrow> str \<Rightarrow> (nat \<times> str) list" where
  "directive_M lib s = two (cls 0 5) (decimal lib) s @ one (decimal lib) s"

definition lit :: "nat \<Rightarrow> str \<Rightarrow> str list" where
  "lit c s = (case s of x # r \<Rightarrow> if x = c then [r] else [] | [] \<Rightarrow> [])"

text \<open>\<open>\s*\<close> and \<open>\s+\<close> are greedy: the longest run of white space is tried first.\<close>

fun spaces :: "str \<Rightarrow> str list" where
  "spaces [] = [[]]"
| "spaces (c # s) = (if isspace c then spaces s @ [c # s] else [c # s])"

definition spaces1 :: "str \<Rightarrow> str list" where
  "spaces1 s = (case s of c # r \<Rightarrow> if isspace c then spaces r else [] | [] \<Rightarrow> [])"

definition strptime_matches ::
  "library \<Rightarrow> str \<Rightarrow> (nat \<times> nat \<times> nat \<times> nat \<times> nat \<times> str) list" where
  "strptime_matches lib s =
     [(d, m, y, h, mi, r9).
        (d, r1) \<leftarrow> directive_d lib s, r2 \<leftarrow> lit 46 r1,
        (m, r3) \<leftarrow> directive_m r2, r4 \<leftarrow> lit 46 r3,
        (y, r5) \<leftarrow> directive_Y lib r4, r6 \<leftarrow> spaces1 r5,
        (h, r7) \<leftarrow> directive_H lib r6, r8 \<leftarrow> lit 58 r7,
        (mi, r9) \<leftarrow> directive_M lib r8]"

definition strptime :: "library \<Rightarrow> str \<Rightarrow> datetime option" where
  "strptime lib date_str =
     (case strptime_matches lib date_str of
        [] \<Rightarrow> None
      | (d, m, y, h, mi, rest) # _ \<Rightarrow>
          if rest \<noteq> [] then None
          else let dt = \<lparr>year = y, month = m, day = d, hour = h, minute = mi, second = 0,
                          microsecond = 0\<rparr>
               in if valid_datetime dt then Some dt else None)"

subsection \<open>The two regular expressions of \<open>answer_received\<close>\<close>

text \<open>
  Both expressions are a literal label, matched under \<open>re.IGNORECASE\<close>, followed by
  \<open>\s*\<close>. A character of the text matches a letter of the pattern when its lower
  case is that letter or one of the letters that the module \<open>re\<close> holds equivalent to
  it (of its table, the entries for the letters of the two labels are given).
  The labels are \<open>U+0432 U+043E U+043F U+0440 U+043E U+0441\<close>, the word for
  ``question'', and \<open>U+043E U+0442 U+0432 U+0435 U+0442\<close>, the word for ``answer''.
\<close>

definition question_label :: str where
  "question_label = [1074, 1086, 1087, 1088, 1086, 1089]"

definition answer_label :: str where
  "answer_label = [1086, 1090, 1074, 1077, 1090]"

definition casefix :: "nat \<Rightarrow> nat list" where
  "casefix lo =
     (if lo = 1074 then [7296] else if lo = 1086 then [7298] else if lo = 1089 then [7299]
      else if lo = 1090 then [7300, 7301] else [])"

definition re_ignorecase_eq :: "nat \<Rightarrow> nat \<Rightarrow> bool" where
  "re_ignorecase_eq p c \<longleftrightarrow>
     (let lo = lower_cp p in lower_cp c = lo \<or> lower_cp c \<in> set (casefix lo))"

fun re_match_literal :: "str \<Rightarrow> str \<Rightarrow> bool" where
  "re_match_literal [] s = True"
| "re_match_literal (p # ps) [] = False"
| "re_match_literal (p # ps) (c # s) = (re_ignorecase_eq p c \<and> re_match_literal ps s)"

text \<open>The index of the leftmost match of a literal, as \<open>re.search\<close> finds it.\<close>

fun re_search_literal :: "str \<Rightarrow> str \<Rightarrow> nat option" where
  "re_search_literal pat [] = (if pat = [] then Some 0 else None)"
| "re_search_literal pat (c # s) =
     (if re_match_literal pat (c # s) then Some 0
      else map_option Suc (re_search_literal pat s))"

text \<open>
  \<^verbatim>\<open>re.split(r'<answer>:\s*', text, flags=re.IGNORECASE, maxsplit=1)\<close>: the text
  before the leftmost match and the text after it, or the text alone when there is no
  match.
\<close>

definition re_split_answer :: "str \<Rightarrow> str list" where
  "re_split_answer text =
     (case re_search_literal (answer_label @ [58]) text of
        None \<Rightarrow> [text]
      | Some i \<Rightarrow>
          [take i text, dropWhile isspace (drop (i + length (answer_label @ [58])) text)])"

text \<open>
  \<^verbatim>\<open>re.sub(r'^.*?<question>:\s*', '', question_part, flags=re.IGNORECASE)\<close>: the
  expression matches at the start of the text only, and \<open>.\<close> does not match a line
  feed, so it deletes up to and including the leftmost label provided no line feed
  comes before it.
\<close>

definition re_sub_question :: "str \<Rightarrow> str" where
  "re_sub_question s =
     (case re_search_literal (question_label @ [58]) s of
        None \<Rightarrow> s
      | Some i \<Rightarrow>
          if 10 \<in> set (take i s) then s
          else dropWhile isspace (drop (i + length (question_label @ [58])) s))"

section \<open>The dialogs\<close>

datatype conv_state =
  ASKING_QUESTION | ADDING_CONTACT_NAME | ADDING_CONTACT_INFO
  | ADDING_EVENT_NAME | ADDING_EVENT_DATE | ADDING_EVENT_DESCRIPTION
  | END

text \<open>
  \<open>context.user_data\<close> is a dictionary with the keys \<open>'contact_name'\<close>,
  \<open>'event_name'\<close> and \<open>'event_date'\<close>; a key that is absent is \<open>None\<close>.
\<close>

record user_data =
  contact_name :: "str option"
  event_name :: "str option"
  ud_event_date :: "datetime option"

definition clear :: user_data where
  "clear = \<lparr>contact_name = None, event_name = None, ud_event_date = None\<rparr>"

text \<open>
  The replies: one constructor for each text that a handler passes to
  \<open>reply_text\<close>, with the values that the text quotes. Sending is taken to succeed.
\<close>

datatype reply =
  AskQuestion | AnswerIs str | UnknownQuestion
  | AnswerFormatPrompt | AnswerAdded | AnswerAddError | EmptyQuestionOrAnswer
  | BadFormatRetry | BadFormat
  | Cancelled
  | ContactNamePrompt | ContactInfoPrompt | ContactAdded str | ContactAddError
  | EventNamePrompt | EventDatePrompt | EventDescriptionPrompt | BadDateFormat
  | EventAdded str | EventAddError | EventDataMissing
  | DigestPrompt | DigestAdded | DigestAddError

text \<open>
  What a handler reads and writes: the global \<open>db\<close> (\<open>bot_db\<close>), the \<open>user_data\<close> of the user,
  and the messages sent to the user so far.
\<close>

record bot =
  bot_db :: database
  user_data :: user_data
  sent :: "reply list"

definition reply_text :: "reply \<Rightarrow> bot \<Rightarrow> bot" where
  "reply_text m b = b\<lparr>sent := sent b @ [m]\<rparr>"

definition question_start :: "bot \<Rightarrow> conv_state \<times> bot" where
  "question_start b = (ASKING_QUESTION, reply_text AskQuestion b)"

definition question_received :: "library \<Rightarrow> bool \<Rightarrow> str \<Rightarrow> bot \<Rightarrow> conv_state \<times> bot" where
  "question_received lib ok text b =
     (case get_company_info lib ok (bot_db b) text of
        Some a \<Rightarrow>
          if a \<noteq> [] then (END, reply_text (AnswerIs a) b)
          else (END, reply_text UnknownQuestion b)
      | None \<Rightarrow> (END, reply_text UnknownQuestion b))"

definition answer_start :: "bot \<Rightarrow> conv_state \<times> bot" where
  "answer_start b = (ASKING_QUESTION, reply_text AnswerFormatPrompt b)"

definition answer_received :: "library \<Rightarrow> bool \<Rightarrow> str \<Rightarrow> bot \<Rightarrow> conv_state \<times> bot" where
  "answer_received lib ok text b =
     (let text_lower = lower text in
      if contains text_lower question_label \<and> contains text_lower answer_label then
        (case re_split_answer text of
           [question_part, answer_part] \<Rightarrow>
             let q = strip (re_sub_question question_part);
                 a = strip answer_part
             in if q \<noteq> [] \<and> a \<noteq> [] then
                  (case add_company_info lib ok (bot_db b) q a of
                     (True, db') \<Rightarrow> (END, reply_text AnswerAdded (b\<lparr>bot_db := db'\<rparr>))
                   | (False, db') \<Rightarrow> (END, reply_text AnswerAddError (b\<lparr>bot_db := db'\<rparr>)))
                else (END, reply_text EmptyQuestionOrAnswer b)
         | _ \<Rightarrow> (END, reply_text BadFormatRetry b))
      else (END, reply_text BadFormat b))"

definition cancel :: "bot \<Rightarrow> conv_state \<times> bot" where
  "cancel b = (END, reply_text Cancelled b)"

definition add_contact_start :: "bot \<Rightarrow> conv_state \<times> bot" where
  "add_contact_start b = (ADDING_CONTACT_NAME, reply_text ContactNamePrompt b)"

definition add_contact_name :: "str \<Rightarrow> bot \<Rightarrow> conv_state \<times> bot" where
  "add_contact_name text b =
     (ADDING_CONTACT_INFO,
      reply_text ContactInfoPrompt (b\<lparr>user_data := (user_data b)\<lparr>contact_name := Some text\<rparr>\<rparr>))"

text \<open>
  \<open>if name and db.add_contact(name, info)\<close>: the contact is written only when a
  non-empty name is there; \<open>user_data\<close> is cleared in the first branch only.
\<close>

definition add_contact_info :: "bool \<Rightarrow> str \<Rightarrow> bot \<Rightarrow> conv_state \<times> bot" where
  "add_contact_info ok text b =
     (case contact_name (user_data b) of
        Some n \<Rightarrow>
          if n \<noteq> [] then
            (case add_contact ok (bot_db b) n text of
               (True, db') \<Rightarrow>
                 (END, (reply_text (ContactAdded n) (b\<lparr>bot_db := db'\<rparr>))\<lparr>user_data := clear\<rparr>)
             | (False, db') \<Rightarrow> (END, reply_text ContactAddError (b\<lparr>bot_db := db'\<rparr>)))
          else (END, reply_text ContactAddError b)
      | None \<Rightarrow> (END, reply_text ContactAddError b))"

definition add_event_start :: "bot \<Rightarrow> conv_state \<times> bot" where
  "add_event_start b = (ADDING_EVENT_NAME, reply_text EventNamePrompt b)"

definition add_event_name :: "str \<Rightarrow> bot \<Rightarrow> conv_state \<times> bot" where
  "add_event_name text b =
     (ADDING_EVENT_DATE,
      reply_text EventDatePrompt (b\<lparr>user_data := (user_data b)\<lparr>event_name := Some text\<rparr>\<rparr>))"

definition add_event_date :: "library \<Rightarrow> str \<Rightarrow> bot \<Rightarrow> conv_state \<times> bot" where
  "add_event_date lib date_str b =
     (case strptime lib date_str of
        Some d \<Rightarrow>
          (ADDING_EVENT_DESCRIPTION,
           reply_text EventDescriptionPrompt
             (b\<lparr>user_data := (user_data b)\<lparr>ud_event_date := Some d\<rparr>\<rparr>))
      | None \<Rightarrow> (ADDING_EVENT_DATE, reply_text BadDateFormat b))"

definition add_event_description :: "bool \<Rightarrow> str \<Rightarrow> bot \<Rightarrow> conv_state \<times> bot" where
  "add_event_description ok text b =
     (let descr = (if text \<noteq> [45] then text else []) in
      case (event_name (user_data b), ud_event_date (user_data b)) of
        (Some n, Some d) \<Rightarrow>
          if n \<noteq> [] then
            (case add_event ok (bot_db b) n d descr of
               (True, db') \<Rightarrow>
                 (END, (reply_text (EventAdded n) (b\<lparr>bot_db := db'\<rparr>))\<lparr>user_data := clear\<rparr>)
             | (False, db') \<Rightarrow> (END, reply_text EventAddError (b\<lparr>bot_db := db'\<rparr>)))
          else (END, reply_text EventDataMissing b)
      | _ \<Rightarrow> (END, reply_text EventDataMissing b))"

definition add_digest_start :: "bot \<Rightarrow> conv_state \<times> bot" where
  "add_digest_start b = (ASKING_QUESTION, reply_text DigestPrompt b)"

definition add_digest_received :: "bool \<Rightarrow> nat \<Rightarrow> str \<Rightarrow> bot \<Rightarrow> conv_state \<times> bot" where
  "add_digest_received ok ts text b =
     (case add_digest ok ts (bot_db b) text of
        (True, db') \<Rightarrow> (END, reply_text DigestAdded (b\<lparr>bot_db := db'\<rparr>))
      | (False, db') \<Rightarrow> (END, reply_text DigestAddError (b\<lparr>bot_db := db'\<rparr>)))"

subsection \<open>The conversation handlers of \<open>main\<close>\<close>

text \<open>
  An update is a command or a text that is no command
  (\<open>filters.TEXT & ~filters.COMMAND\<close>). Each \<open>ConversationHandler\<close> has one entry
  point, its handlers by state, and the fallback \<open>/cancel\<close>. Its conversation with
  a user is in no state (\<open>None\<close>) or in one of its states. \<open>conv_step\<close> is what the
  handler does with an update: \<open>None\<close> when it does not take the update, otherwise
  the new state of the conversation (none when the callback returns \<open>END\<close>) and the
  new \<open>bot\<close>. \<open>lib\<close> is the library; \<open>ok\<close> and \<open>ts\<close> are the outcome of SQLite
  and the clock, for the callbacks that write.
\<close>

datatype update = Command string | Text str

datatype flow = question_conv | answer_conv | contact_conv | event_conv | digest_conv

fun entry_command :: "flow \<Rightarrow> string" where
  "entry_command question_conv = ''question''"
| "entry_command answer_conv = ''answer''"
| "entry_command contact_conv = ''add_contact''"
| "entry_command event_conv = ''add_event''"
| "entry_command digest_conv = ''add_digest''"

fun entry_callback :: "flow \<Rightarrow> bot \<Rightarrow> conv_state \<times> bot" where
  "entry_callback question_conv = question_start"
| "entry_callback answer_conv = answer_start"
| "entry_callback contact_conv = add_contact_start"
| "entry_callback event_conv = add_event_start"
| "entry_callback digest_conv = add_digest_start"

fun states ::
  "flow \<Rightarrow> conv_state
     \<Rightarrow> (library \<Rightarrow> bool \<Rightarrow> nat \<Rightarrow> str \<Rightarrow> bot \<Rightarrow> conv_state \<times> bot) option" where
  "states question_conv ASKING_QUESTION = Some (\<lambda>lib ok ts. question_received lib ok)"
| "states answer_conv ASKING_QUESTION = Some (\<lambda>lib ok ts. answer_received lib ok)"
| "states contact_conv ADDING_CONTACT_NAME = Some (\<lambda>lib ok ts. add_contact_name)"
| "states contact_conv ADDING_CONTACT_INFO = Some (\<lambda>lib ok ts. add_contact_info ok)"
| "states event_conv ADDING_EVENT_NAME = Some (\<lambda>lib ok ts. add_event_name)"
| "states event_conv ADDING_EVENT_DATE = Some (\<lambda>lib ok ts. add_event_date lib)"
| "states event_conv ADDING_EVENT_DESCRIPTION = Some (\<lambda>lib ok ts. add_event_description ok)"
| "states digest_conv ASKING_QUESTION = Some (\<lambda>lib ok ts. add_digest_received ok ts)"
| "states _ _ = None"

definition after :: "conv_state \<times> bot \<Rightarrow> conv_state option \<times> bot" where
  "after r = (if fst r = END then None else Some (fst r), snd r)"

definition conv_step ::
  "library \<Rightarrow> bool \<Rightarrow> nat \<Rightarrow> flow \<Rightarrow> conv_state option \<Rightarrow> update \<Rightarrow> bot
     \<Rightarrow> (conv_state option \<times> bot) option" where
  "conv_step lib ok ts f cur u b =
     (case cur of
        None \<Rightarrow>
          (case u of
             Command c \<Rightarrow> if c = entry_command f then Some (after (entry_callback f b)) else None
           | Text t \<Rightarrow> None)
      | Some st \<Rightarrow>
          (case u of
             Text t \<Rightarrow>
               (case states f st of
                  Some callback \<Rightarrow> Some (after (callback lib ok ts t b))
                | None \<Rightarrow> None)
           | Command c \<Rightarrow> if c = ''cancel'' then Some (after (cancel b)) else None))"

subsection \<open>The daily digest\<close>

text \<open>
  \<open>send_daily_digest\<close> composes a message and logs it; it sends nothing and calls
  no method of \<open>Database\<close> that writes. The message is given by its two parts: the
  latest digest, if any, and the names of the events of the next day. An exception
  (the \<open>OverflowError\<close> of the window) is logged and there is no message. The two
  flags are the outcomes of SQLite for the two queries.
\<close>

record digest_message =
  latest_digest :: "str option"
  todays_events :: "str list"

definition send_daily_digest ::
  "library \<Rightarrow> bool \<Rightarrow> bool \<Rightarrow> datetime \<Rightarrow> database
     \<Rightarrow> database \<times> digest_message option" where
  "send_daily_digest lib ok_digests ok_events now d =
     (let digests = get_recent_digests ok_digests d 1 in
      case get_upcoming_events lib ok_events now (Some 1) d of
        Inl e \<Rightarrow> (d, None)
      | Inr evs \<Rightarrow>
          (d, Some \<lparr>latest_digest = (case digests of [] \<Rightarrow> None | x # _ \<Rightarrow> Some x),
                    todays_events = map evt_name evs\<rparr>))"

section \<open>Properties\<close>

subsection \<open>Upsert and lookup of answers\<close>




subsection \<open>The \<open>LIKE\<close> operator\<close>

lemma fetchone_filter_find: "fetchone (filter P xs) = find P xs"
  by (induction xs) (auto simp: fetchone_def)

lemma like_match_percent_all: "like_match [37] s"
  by (induction s) auto

lemma like_match_percent:
  "like_match (37 # q) s \<longleftrightarrow> (\<exists>pre rest. s = pre @ rest \<and> like_match q rest)"
proof (induction s)
  case Nil
  then show ?case by auto
next
  case (Cons c s)
  show ?case
  proof
    assume "like_match (37 # q) (c # s)"
    then consider "like_match q (c # s)" | "like_match (37 # q) s" by auto
    then show "\<exists>pre rest. c # s = pre @ rest \<and> like_match q rest"
    proof cases
      case 1
      then show ?thesis by (metis append_Nil)
    next
      case 2
      then obtain pre rest where "s = pre @ rest" "like_match q rest" using Cons.IH by auto
      then show ?thesis by (metis append_Cons)
    qed
  next
    assume "\<exists>pre rest. c # s = pre @ rest \<and> like_match q rest"
    then obtain pre rest where pr: "c # s = pre @ rest" "like_match q rest" by auto
    show "like_match (37 # q) (c # s)"
    proof (cases pre)
      case Nil
      then show ?thesis using pr by auto
    next
      case (Cons a pre')
      then have "s = pre' @ rest" using pr by auto
      then have "like_match (37 # q) s" using Cons.IH pr(2) by auto
      then show ?thesis by auto
    qed
  qed
qed

lemma like_match_literal:
  "37 \<notin> set p \<Longrightarrow> 95 \<notin> set p \<Longrightarrow>
   like_match (p @ [37]) s \<longleftrightarrow> (\<exists>mid post. s = mid @ post \<and> list_all2 like_eq p mid)"
proof (induction p arbitrary: s)
  case Nil
  then show ?case by (simp add: like_match_percent_all)
next
  case (Cons c p)
  show ?case
  proof (cases s)
    case Nil
    then show ?thesis using Cons.prems by auto
  next
    case (Cons c2 s')
    have "like_match ((c # p) @ [37]) (c2 # s') \<longleftrightarrow> like_eq c c2 \<and> like_match (p @ [37]) s'"
      using Cons.prems by auto
    also have "\<dots> \<longleftrightarrow> like_eq c c2 \<and> (\<exists>mid post. s' = mid @ post \<and> list_all2 like_eq p mid)"
      using Cons.IH[of s'] Cons.prems by auto
    also have "\<dots> \<longleftrightarrow> (\<exists>mid post. c2 # s' = mid @ post \<and> list_all2 like_eq (c # p) mid)"
      by (auto simp: list_all2_Cons1 Cons_eq_append_conv)
    finally show ?thesis using Cons by simp
  qed
qed

lemma cstr_id: "0 \<notin> set s \<Longrightarrow> cstr s = s"
  by (induction s) (auto simp: cstr_def)

lemma like_substring:
  assumes "37 \<notin> set n" "95 \<notin> set n" "0 \<notin> set n" "0 \<notin> set s"
  shows "like ([37] @ n @ [37]) s \<longleftrightarrow>
     (\<exists>pre mid post. s = pre @ mid @ post \<and> list_all2 like_eq n mid)"
proof -
  have "cstr ([37] @ n @ [37]) = 37 # n @ [37]" using assms by (intro cstr_id[THEN trans]) auto
  then have "like ([37] @ n @ [37]) s \<longleftrightarrow> like_match (37 # (n @ [37])) s"
    using assms by (simp add: like_def cstr_id)
  also have "\<dots> \<longleftrightarrow> (\<exists>pre rest. s = pre @ rest \<and> like_match (n @ [37]) rest)"
    by (rule like_match_percent)
  also have "\<dots> \<longleftrightarrow> (\<exists>pre mid post. s = pre @ mid @ post \<and> list_all2 like_eq n mid)"
    using assms by (simp add: like_match_literal) blast
  finally show ?thesis .
qed

lemma search_contact_find:
  "search_contact True db n = find (\<lambda>r. like ([37] @ n @ [37]) (name r)) (contacts db)"
proof -
  have "(case x of None \<Rightarrow> None | Some result \<Rightarrow> Some \<lparr>name = name result, info = info result\<rparr>) = x"
    for x :: "contact_row option"
    by (cases x) simp_all
  then show ?thesis by (simp add: search_contact_def fetchone_filter_find)
qed

text \<open>
  Claim C9. Of the contacts that match, \<open>search_contact\<close> returns one, the first in
  the order of the table: the result is \<open>Some c\<close> exactly when \<open>c\<close> is the row at the
  least index whose name matches. It returns \<open>None\<close> exactly when no row matches.
\<close>

theorem search_contact_first_match:
  "(search_contact True db n = Some c \<longleftrightarrow>
      (\<exists>i < length (contacts db). contacts db ! i = c \<and> like ([37] @ n @ [37]) (name c)
          \<and> (\<forall>j < i. \<not> like ([37] @ n @ [37]) (name (contacts db ! j)))))
   \<and> (search_contact True db n = None \<longleftrightarrow>
        (\<forall>r \<in> set (contacts db). \<not> like ([37] @ n @ [37]) (name r)))"
  unfolding search_contact_find by (auto simp: find_Some_iff find_None_iff)

theorem search_contact_first_match_witness:
  "search_contact True
     \<lparr>company_info = [],
      contacts = [\<lparr>name = str_of ''Bob'', info = str_of ''1''\<rparr>,
                  \<lparr>name = str_of ''Alice'', info = str_of ''2''\<rparr>,
                  \<lparr>name = str_of ''Alicia'', info = str_of ''3''\<rparr>],
      events = [], digests = []\<rparr> (str_of ''Ali'')
     = Some \<lparr>name = str_of ''Alice'', info = str_of ''2''\<rparr>
   \<and> search_contact True
     \<lparr>company_info = [],
      contacts = [\<lparr>name = str_of ''Bob'', info = str_of ''1''\<rparr>,
                  \<lparr>name = str_of ''Alice'', info = str_of ''2''\<rparr>,
                  \<lparr>name = str_of ''Alicia'', info = str_of ''3''\<rparr>],
      events = [], digests = []\<rparr> (str_of ''Eve'') = None"
proof -
  let ?db = "\<lparr>company_info = [],
      contacts = [\<lparr>name = str_of ''Bob'', info = str_of ''1''\<rparr>,
                  \<lparr>name = str_of ''Alice'', info = str_of ''2''\<rparr>,
                  \<lparr>name = str_of ''Alicia'', info = str_of ''3''\<rparr>],
      events = [], digests = []\<rparr>"
  let ?p = "\<lambda>n s. like ([37] @ str_of n @ [37]) (str_of s)"
  have m: "\<not> ?p ''Ali'' ''Bob''" "?p ''Ali'' ''Alice''"
    "\<not> ?p ''Eve'' ''Bob''" "\<not> ?p ''Eve'' ''Alice''" "\<not> ?p ''Eve'' ''Alicia''"
    by (simp_all add: like_def cstr_def str_of_def like_eq_def sqlite_tolower_def)
  have "\<exists>i < length (contacts ?db). contacts ?db ! i = \<lparr>name = str_of ''Alice'', info = str_of ''2''\<rparr>
      \<and> like ([37] @ str_of ''Ali'' @ [37]) (name \<lparr>name = str_of ''Alice'', info = str_of ''2''\<rparr>)
      \<and> (\<forall>j < i. \<not> like ([37] @ str_of ''Ali'' @ [37]) (name (contacts ?db ! j)))"
    using m by (intro exI[of _ 1]) simp
  moreover have "\<forall>r \<in> set (contacts ?db). \<not> like ([37] @ str_of ''Eve'' @ [37]) (name r)"
    using m by simp
  ultimately show ?thesis
    using search_contact_first_match[of ?db "str_of ''Ali''" "\<lparr>name = str_of ''Alice'', info = str_of ''2''\<rparr>"]
      search_contact_first_match[of ?db "str_of ''Eve''"]
    by blast
qed

text \<open>
  Claim C6, as amended. The match of \<open>search_contact\<close> is that of \<open>LIKE\<close> on
  \<open>%name%\<close>. For a search string without the wildcards \<open>%\<close> and \<open>_\<close> (and, as
  the names, without U+0000) the contact found is the first whose name contains the
  search string, where two characters agree when they are equal or are both below 128
  and the same letter in either case (\<open>like_eq\<close>): letters of Basic Latin are matched
  without regard to case, every other character exactly.
\<close>

theorem search_contact_caseless_substring:
  assumes "37 \<notin> set n" "95 \<notin> set n" "0 \<notin> set n"
    and "\<forall>r \<in> set (contacts db). 0 \<notin> set (name r)"
  shows "search_contact True db n =
     find (\<lambda>r. \<exists>pre mid post. name r = pre @ mid @ post \<and> list_all2 like_eq n mid) (contacts db)"
proof -
  have "like ([37] @ n @ [37]) (name r) \<longleftrightarrow>
     (\<exists>pre mid post. name r = pre @ mid @ post \<and> list_all2 like_eq n mid)"
    if "r \<in> set (contacts db)" for r
    using like_substring[OF assms(1-3), of "name r"] assms(4) that by blast
  then show ?thesis unfolding search_contact_find by (intro find_cong) auto
qed

theorem search_contact_caseless_substring_witness:
  "37 \<notin> set (str_of ''LIC'') \<and> 95 \<notin> set (str_of ''LIC'') \<and> 0 \<notin> set (str_of ''LIC'')
   \<and> 0 \<notin> set (str_of ''Bob'') \<and> 0 \<notin> set (str_of ''Alice'')
   \<and> search_contact True \<lparr>company_info = [],
            contacts = [\<lparr>name = str_of ''Bob'', info = str_of ''1''\<rparr>,
                        \<lparr>name = str_of ''Alice'', info = str_of ''2''\<rparr>],
            events = [], digests = []\<rparr> (str_of ''LIC'')
      = find (\<lambda>r. \<exists>pre mid post. name r = pre @ mid @ post \<and> list_all2 like_eq (str_of ''LIC'') mid)
          [\<lparr>name = str_of ''Bob'', info = str_of ''1''\<rparr>, \<lparr>name = str_of ''Alice'', info = str_of ''2''\<rparr>]
   \<and> search_contact True \<lparr>company_info = [],
            contacts = [\<lparr>name = str_of ''Bob'', info = str_of ''1''\<rparr>,
                        \<lparr>name = str_of ''Alice'', info = str_of ''2''\<rparr>],
            events = [], digests = []\<rparr> (str_of ''LIC'')
      = Some \<lparr>name = str_of ''Alice'', info = str_of ''2''\<rparr>"
proof -
  let ?db = "\<lparr>company_info = [],
            contacts = [\<lparr>name = str_of ''Bob'', info = str_of ''1''\<rparr>,
                        \<lparr>name = str_of ''Alice'', info = str_of ''2''\<rparr>],
            events = [], digests = []\<rparr>"
  have h: "37 \<notin> set (str_of ''LIC'')" "95 \<notin> set (str_of ''LIC'')" "0 \<notin> set (str_of ''LIC'')"
    by (simp_all add: str_of_def)
  have h4: "\<forall>r \<in> set (contacts ?db). 0 \<notin> set (name r)" by (simp add: str_of_def)
  have v: "search_contact True ?db (str_of ''LIC'') = Some \<lparr>name = str_of ''Alice'', info = str_of ''2''\<rparr>"
    by (simp add: search_contact_def fetchone_def like_def cstr_def str_of_def like_eq_def
        sqlite_tolower_def)
  have h5: "0 \<notin> set (str_of ''Bob'')" "0 \<notin> set (str_of ''Alice'')"
    by (simp_all add: str_of_def)
  show ?thesis using h h5 v search_contact_caseless_substring[OF h h4] by simp
qed

text \<open>
  A match that respects the case of letters would not find \<open>Alice\<close> for \<open>alice\<close>:
  the name does not contain that string. \<open>search_contact\<close> finds her.
\<close>

theorem search_contact_ascii_case_counterexample:
  "search_contact True
     \<lparr>company_info = [], contacts = [\<lparr>name = str_of ''Alice'', info = str_of ''x''\<rparr>],
      events = [], digests = []\<rparr> (str_of ''alice'')
     = Some \<lparr>name = str_of ''Alice'', info = str_of ''x''\<rparr>
   \<and> \<not> contains (str_of ''Alice'') (str_of ''alice'')"
  by (simp add: search_contact_def fetchone_def like_def cstr_def str_of_def like_eq_def
        sqlite_tolower_def)

subsection \<open>Dates as text\<close>

lemma length_pad [simp]: "length (pad k n) = k"
  by (induction k) auto

lemma block_le:
  fixes a b r r' B :: nat
  assumes "r < B" "r' < B"
  shows "a * B + r \<le> b * B + r' \<longleftrightarrow> a < b \<or> (a = b \<and> r \<le> r')"
proof (cases "a < b")
  case True
  then have "Suc a * B \<le> b * B" by (intro mult_le_mono1) simp
  then show ?thesis using True assms by simp
next
  case False
  show ?thesis
  proof (cases "a = b")
    case True then show ?thesis by simp
  next
    case neq: False
    then have "b < a" using False by simp
    then have "Suc b * B \<le> a * B" by (intro mult_le_mono1) simp
    then show ?thesis using False neq assms by simp
  qed
qed

lemma mod_block: "(n::nat) mod 10 ^ Suc k = (n div 10 ^ k mod 10) * 10 ^ k + n mod 10 ^ k"
proof -
  have "n mod (10 ^ k * 10) = 10 ^ k * (n div 10 ^ k mod 10) + n mod 10 ^ k"
    by (rule mod_mult2_eq)
  then show ?thesis by (simp add: mult.commute)
qed

lemma pad_le: "pad k n \<le> pad k m \<longleftrightarrow> n mod 10 ^ k \<le> m mod 10 ^ k"
proof (induction k)
  case 0
  then show ?case by simp
next
  case (Suc k)
  have "pad (Suc k) n \<le> pad (Suc k) m \<longleftrightarrow>
      n div 10 ^ k mod 10 < m div 10 ^ k mod 10
      \<or> (n div 10 ^ k mod 10 = m div 10 ^ k mod 10 \<and> n mod 10 ^ k \<le> m mod 10 ^ k)"
    using Suc by simp
  also have "\<dots> \<longleftrightarrow> n mod 10 ^ Suc k \<le> m mod 10 ^ Suc k"
    unfolding mod_block[of n k] mod_block[of m k]
    by (rule block_le[symmetric]) simp_all
  finally show ?case .
qed

lemma pad_le_iff: "n < 10 ^ k \<Longrightarrow> m < 10 ^ k \<Longrightarrow> pad k n \<le> pad k m \<longleftrightarrow> n \<le> m"
  by (simp add: pad_le)

lemma pad_eq_iff: "n < 10 ^ k \<Longrightarrow> m < 10 ^ k \<Longrightarrow> pad k n = pad k m \<longleftrightarrow> n = m"
  using pad_le_iff[of n k m] pad_le_iff[of m k n] by (metis order_antisym order_refl)

lemma pad_less_iff: "n < 10 ^ k \<Longrightarrow> m < 10 ^ k \<Longrightarrow> pad k n < pad k m \<longleftrightarrow> n < m"
  using pad_le_iff[of m k n] by (simp add: not_le[symmetric])

lemma append_le_append:
  fixes a b x y :: "nat list"
  shows "length a = length b \<Longrightarrow> a @ x \<le> b @ y \<longleftrightarrow> a < b \<or> (a = b \<and> x \<le> y)"
  by (induction a b rule: list_induct2) auto

lemma parse_digits_pad: "parse_digits (pad k n @ r) acc = parse_digits r (acc * 10 ^ k + n mod 10 ^ k)"
proof (induction k arbitrary: acc)
  case 0
  then show ?case by simp
next
  case (Suc k)
  have "digit_val (48 + n div 10 ^ k mod 10) = Some (n div 10 ^ k mod 10)"
    by (simp add: digit_val_def) 
  moreover have "acc * 10 ^ Suc k + n mod 10 ^ Suc k
      = (10 * acc + n div 10 ^ k mod 10) * 10 ^ k + n mod 10 ^ k"
    unfolding mod_block[of n k] by (simp add: algebra_simps)
  ultimately show ?case using Suc[of "10 * acc + n div 10 ^ k mod 10"]
    by (simp del: power_Suc)
qed

lemma take_num_pad: "n < 10 ^ k \<Longrightarrow> take_num k (pad k n @ r) = Some (n, r)"
  using parse_digits_pad[of k n "[]" 0] by (simp add: take_num_def)

lemma fraction_le:
  assumes "u < 1000000" "v < 1000000"
  shows "(if u = 0 then [] else [46] @ pad 6 u) \<le> (if v = 0 then [] else [46] @ pad 6 v)
     \<longleftrightarrow> u \<le> v"
  using assms pad_le_iff[of u 6 v] by auto

lemma isoformat_le:
  assumes "valid_datetime a" "valid_datetime b"
  shows "isoformat a \<le> isoformat b \<longleftrightarrow> dt_le a b"
proof -
  have y: "year a < 10 ^ 4" "year b < 10 ^ 4" using assms by (simp_all add: valid_datetime_def)
  have m: "month a < 10 ^ 2" "month b < 10 ^ 2" using assms by (simp_all add: valid_datetime_def)
  have d: "day a < 10 ^ 2" "day b < 10 ^ 2"
    using assms by (auto simp: valid_datetime_def days_in_month_def split: if_splits)
  have h: "hour a < 10 ^ 2" "hour b < 10 ^ 2" using assms by (simp_all add: valid_datetime_def)
  have mi: "minute a < 10 ^ 2" "minute b < 10 ^ 2" using assms by (simp_all add: valid_datetime_def)
  have s: "second a < 10 ^ 2" "second b < 10 ^ 2" using assms by (simp_all add: valid_datetime_def)
  have u: "microsecond a < 1000000" "microsecond b < 1000000"
    using assms by (simp_all add: valid_datetime_def)
  note cmp = pad_le_iff pad_less_iff pad_eq_iff
  show ?thesis
    unfolding isoformat_def dt_le_def dt_key_def
    by (simp only: append_le_append length_pad append_Cons append_Nil Cons_le_Cons
          fraction_le[OF u, unfolded append_Cons append_Nil]
          cmp[OF y] cmp[OF m] cmp[OF d] cmp[OF h] cmp[OF mi] cmp[OF s]
          less_eq_prod_simp simp_thms) auto
qed

lemma dt_key_inj: "dt_key a = dt_key b \<Longrightarrow> a = b"
  by (cases a; cases b) (simp add: dt_key_def)

lemma isoformat_inj:
  assumes "valid_datetime a" "valid_datetime b" "isoformat a = isoformat b"
  shows "a = b"
proof -
  have "dt_le a b" "dt_le b a" using assms isoformat_le by fastforce+
  then show ?thesis by (auto simp: dt_le_def intro: dt_key_inj)
qed

lemma expect_Cons: "expect c (c # r) = Some r"
  by (simp add: expect_def)

lemma parse_fraction_pad:
  "u < 1000000 \<Longrightarrow> parse_fraction (if u = 0 then [] else [46] @ pad 6 u) = Some u"
  using take_num_pad[of u 6 "[]"] by (simp add: parse_fraction_def expect_def)

lemma parse_isoformat_isoformat:
  assumes "valid_datetime d"
  shows "parse_isoformat (isoformat d) = Some d"
proof -
  have y: "year d < 10 ^ 4" using assms by (simp_all add: valid_datetime_def)
  have m: "month d < 10 ^ 2" using assms by (simp_all add: valid_datetime_def)
  have dd: "day d < 10 ^ 2"
    using assms by (auto simp: valid_datetime_def days_in_month_def split: if_splits)
  have h: "hour d < 10 ^ 2" using assms by (simp_all add: valid_datetime_def)
  have mi: "minute d < 10 ^ 2" using assms by (simp_all add: valid_datetime_def)
  have s: "second d < 10 ^ 2" using assms by (simp_all add: valid_datetime_def)
  have u: "microsecond d < 1000000" using assms by (simp_all add: valid_datetime_def)
  define fr where "fr = (if microsecond d = 0 then [] else [46] @ pad 6 (microsecond d))"
  have pf: "parse_fraction fr = Some (microsecond d)"
    unfolding fr_def by (rule parse_fraction_pad[OF u])
  have iso: "isoformat d =
     pad 4 (year d) @ [45] @ pad 2 (month d) @ [45] @ pad 2 (day d) @ [84]
       @ pad 2 (hour d) @ [58] @ pad 2 (minute d) @ [58] @ pad 2 (second d) @ fr"
    by (simp add: isoformat_def fr_def)
  have sur: "\<lparr>year = year d, month = month d, day = day d, hour = hour d,
      minute = minute d, second = second d, microsecond = microsecond d\<rparr> = d"
    by (cases d) simp
  show ?thesis
    unfolding iso parse_isoformat_def
    by (simp only: take_num_pad[OF y] take_num_pad[OF m] take_num_pad[OF dd] take_num_pad[OF h]
          take_num_pad[OF mi] take_num_pad[OF s] pf expect_Cons
          append_Cons append_Nil bind.bind_lunit prod.case Let_def)
       (simp add: sur assms)
qed

lemma pad2: "pad 2 n = [48 + n div 10 mod 10, 48 + n mod 10]"
  by (simp add: numeral_2_eq_2)

lemma pad4:
  "pad 4 n = [48 + n div 1000 mod 10, 48 + n div 100 mod 10, 48 + n div 10 mod 10, 48 + n mod 10]"
proof -
  have "pad (Suc (Suc (Suc (Suc 0)))) n =
      [48 + n div 1000 mod 10, 48 + n div 100 mod 10, 48 + n div 10 mod 10, 48 + n mod 10]"
    by simp
  moreover have "(4::nat) = Suc (Suc (Suc (Suc 0)))" by simp
  ultimately show ?thesis by (simp only:)
qed

lemma pad6:
  "pad 6 n = [48 + n div 100000 mod 10, 48 + n div 10000 mod 10, 48 + n div 1000 mod 10,
              48 + n div 100 mod 10, 48 + n div 10 mod 10, 48 + n mod 10]"
proof -
  have "pad (Suc (Suc (Suc (Suc (Suc (Suc 0)))))) n =
      [48 + n div 100000 mod 10, 48 + n div 10000 mod 10, 48 + n div 1000 mod 10,
       48 + n div 100 mod 10, 48 + n div 10 mod 10, 48 + n mod 10]"
    by simp
  moreover have "(6::nat) = Suc (Suc (Suc (Suc (Suc (Suc 0)))))" by simp
  ultimately show ?thesis by (simp only:)
qed

lemmas date_eval = str_of_def parse_isoformat_def take_num_def expect_def parse_fraction_def
  digit_val_def valid_datetime_def days_in_month_def is_leap_def isoformat_def pad2 pad4 pad6

lemma model_library_reads_isoformat: "reads_isoformat model_library"
  by (simp add: reads_isoformat_def model_library_def parse_isoformat_isoformat)

lemma model_library_ascii_digits: "ascii_digits model_library"
  by (simp add: ascii_digits_def model_library_def digit_val_def)

lemma decimal_ascii:
  "ascii_digits lib \<Longrightarrow> c < 128 \<Longrightarrow>
   decimal lib c = (if 48 \<le> c \<and> c \<le> 57 then Some (c - 48) else None)"
  by (simp add: ascii_digits_def)

lemmas library_eval = model_library_def lower_def lower_cp_def digit_val_def

subsection \<open>The event queries\<close>

lemma parse_isoformat_valid: "parse_isoformat s = Some d \<Longrightarrow> valid_datetime d"
  by (auto simp: parse_isoformat_def Option.bind_eq_Some_conv Let_def split: if_splits prod.splits)

lemma events_loop_set:
  "e \<in> set (events_loop lib rows) \<Longrightarrow>
   \<exists>r \<in> set rows. fromisoformat lib (event_date r) = Some (evt_date e) \<and> evt_name e = ev_name r"
  by (induction rows) (auto split: option.splits)

lemma events_loop_filter:
  "events_loop lib rows = events_loop lib [r \<leftarrow> rows. fromisoformat lib (event_date r) \<noteq> None]"
  by (induction rows) (auto split: option.splits)

lemma canonical_row:
  assumes "reads_isoformat lib" "canonical_dates db" "r \<in> set (events db)"
    "fromisoformat lib (event_date r) = Some d"
  shows "isoformat d = event_date r" "valid_datetime d"
proof -
  obtain d0 where d0: "parse_isoformat (event_date r) = Some d0" "isoformat d0 = event_date r"
    using assms(2,3) by (auto simp: canonical_dates_def split: option.splits)
  then have v: "valid_datetime d0" by (simp add: parse_isoformat_valid)
  then have "fromisoformat lib (isoformat d0) = Some d0"
    using assms(1) by (simp add: reads_isoformat_def)
  then have "d = d0" using assms(4) d0(2) by simp
  then show "isoformat d = event_date r" "valid_datetime d" using d0(2) v by simp_all
qed

lemma events_loop_sorted:
  assumes "canonical_dates db" "set rows \<subseteq> set (events db)" "sorted (map event_date rows)"
    and lib_ok: "reads_isoformat lib"
  shows "sorted_wrt dt_le (map evt_date (events_loop lib rows))"
  using assms(2,3)
proof (induction rows)
  case Nil
  then show ?case by simp
next
  case (Cons r rows)
  then have IH: "sorted_wrt dt_le (map evt_date (events_loop lib rows))" by simp
  show ?case
  proof (cases "fromisoformat lib (event_date r)")
    case None
    then show ?thesis using IH by simp
  next
    case (Some d)
    have rd: "isoformat d = event_date r" "valid_datetime d"
      using canonical_row[OF lib_ok assms(1) _ Some] Cons.prems by auto
    have "dt_le d (evt_date e)" if e_in: "e \<in> set (events_loop lib rows)" for e
    proof -
      obtain x where x: "x \<in> set rows" "fromisoformat lib (event_date x) = Some (evt_date e)"
        using events_loop_set[OF e_in] by blast
      then have xd: "isoformat (evt_date e) = event_date x" "valid_datetime (evt_date e)"
        using canonical_row[OF lib_ok assms(1) _ x(2)] Cons.prems by auto
      have "event_date r \<le> event_date x" using Cons.prems(2) x(1) by auto
      then show ?thesis using isoformat_le[OF rd(2) xd(2)] rd(1) xd(1) by simp
    qed
    then show ?thesis using IH Some by simp
  qed
qed

lemma due_events_selected:
  assumes "valid_datetime now" "canonical_dates db" and lib_ok: "reads_isoformat lib"
  shows "\<exists>evs. get_upcoming_events lib True now None db = Inr evs
    \<and> (\<forall>e \<in> set evs. dt_le now (evt_date e)
          \<and> (\<exists>r \<in> set (events db). \<not> notified r \<and> ev_name r = evt_name e
                \<and> event_date r = isoformat (evt_date e)))
    \<and> sorted_wrt dt_le (map evt_date evs)"
proof -
  define rows where "rows = sort_key event_date
     [r \<leftarrow> events db. isoformat now \<le> event_date r \<and> \<not> notified r]"
  have res: "get_upcoming_events lib True now None db = Inr (events_loop lib rows)"
    by (simp add: get_upcoming_events_def rows_def)
  have sub: "set rows \<subseteq> set (events db)" by (auto simp: rows_def)
  have srt: "sorted (map event_date rows)" by (simp add: rows_def)
  have "dt_le now (evt_date e) \<and> (\<exists>r \<in> set (events db). \<not> notified r \<and> ev_name r = evt_name e
                \<and> event_date r = isoformat (evt_date e))" if e_in: "e \<in> set (events_loop lib rows)" for e
  proof -
    obtain r where r: "r \<in> set rows" "fromisoformat lib (event_date r) = Some (evt_date e)"
       "evt_name e = ev_name r"
      using events_loop_set[OF e_in] by blast
    then have r': "r \<in> set (events db)" "isoformat now \<le> event_date r" "\<not> notified r"
      by (auto simp: rows_def)
    have rd: "isoformat (evt_date e) = event_date r" "valid_datetime (evt_date e)"
      using canonical_row[OF lib_ok assms(2) r'(1) r(2)] by auto
    have "dt_le now (evt_date e)" using isoformat_le[OF assms(1) rd(2)] rd(1) r'(2) by simp
    then show ?thesis using r r' rd by auto
  qed
  then show ?thesis using res events_loop_sorted[OF assms(2) sub srt lib_ok] by blast
qed

lemma marked_event_excluded:
  assumes "canonical_dates db"
    and "get_upcoming_events lib True now' None (snd (mark_event_notified True db n d)) = Inr evs'"
    and "e \<in> set evs'"
    and lib_ok: "reads_isoformat lib"
  shows "\<not> (evt_name e = n \<and> evt_date e = d)"
proof
  assume ed: "evt_name e = n \<and> evt_date e = d"
  define db' where "db' = snd (mark_event_notified True db n d)"
  have ev': "events db' = map (\<lambda>r. if ev_name r = n \<and> event_date r = isoformat d
                           then r\<lparr>notified := True\<rparr> else r) (events db)"
    by (simp add: db'_def mark_event_notified_def)
  have "e \<in> set (events_loop lib (sort_key event_date
     [r \<leftarrow> events db'. isoformat now' \<le> event_date r \<and> \<not> notified r]))"
    using assms(2,3) by (simp add: get_upcoming_events_def db'_def)
  then obtain r where r: "r \<in> set (events db')" "\<not> notified r"
     "fromisoformat lib (event_date r) = Some (evt_date e)" "evt_name e = ev_name r"
    using events_loop_set by fastforce
  then obtain r0 where r0: "r0 \<in> set (events db)"
     "r = (if ev_name r0 = n \<and> event_date r0 = isoformat d then r0\<lparr>notified := True\<rparr> else r0)"
    unfolding ev' by auto
  have same: "r = r0" "\<not> (ev_name r0 = n \<and> event_date r0 = isoformat d)"
    using r0(2) r(2) by (auto split: if_splits)
  have "isoformat (evt_date e) = event_date r0"
    using canonical_row(1)[OF lib_ok assms(1) r0(1)] r(3) same(1) by simp
  then show False using same r(4) ed by simp
qed

lemma unparsable_row_skipped:
  assumes "fromisoformat lib (event_date r) = None" "events db = xs @ [r] @ ys"
  shows "get_upcoming_events lib ok now days db = get_upcoming_events lib ok now days (db\<lparr>events := xs @ ys\<rparr>)"
proof -
  have key: "events_loop lib (sort_key event_date (filter P (events db)))
      = events_loop lib (sort_key event_date (filter P (xs @ ys)))" for P
  proof -
    have "[x \<leftarrow> sort_key event_date (filter P (events db)). fromisoformat lib (event_date x) \<noteq> None]
      = [x \<leftarrow> sort_key event_date (filter P (xs @ ys)). fromisoformat lib (event_date x) \<noteq> None]"
      using assms by (simp add: filter_sort)
    then show ?thesis
      using events_loop_filter[of lib "sort_key event_date (filter P (events db))"]
        events_loop_filter[of lib "sort_key event_date (filter P (xs @ ys))"] by simp
  qed
  show ?thesis
    by (simp add: get_upcoming_events_def key Let_def split: option.splits sum.splits)
qed

text \<open>
  The program keeps the dates of the table canonical: \<open>add_event\<close> writes the
  \<open>isoformat()\<close> of a \<open>datetime\<close>, \<open>mark_event_notified\<close> changes no date, and
  the date that the dialog passes to \<open>add_event\<close> comes from \<open>strptime\<close>.
\<close>

lemma canonical_dates_add_event:
  assumes "valid_datetime d" "canonical_dates db"
  shows "canonical_dates (snd (add_event ok db n d descr))"
  using assms by (auto simp: canonical_dates_def add_event_def parse_isoformat_isoformat)

lemma canonical_dates_mark_event_notified:
  assumes "canonical_dates db"
  shows "canonical_dates (snd (mark_event_notified ok db n d))"
proof (cases ok)
  case True
  define f :: "event_row \<Rightarrow> event_row" where "f = (\<lambda>r. if ev_name r = n \<and> event_date r = isoformat d
                           then r\<lparr>notified := True\<rparr> else r)"
  have ev: "events (snd (mark_event_notified True db n d)) = map f (events db)"
    by (simp add: mark_event_notified_def f_def)
  have same: "event_date (f r) = event_date r" for r
    by (simp add: f_def)
  show ?thesis
    using assms by (auto simp: canonical_dates_def True ev same split: option.splits)
next
  case False
  then show ?thesis using assms by (simp add: mark_event_notified_def)
qed

lemma strptime_valid: "strptime lib s = Some d \<Longrightarrow> valid_datetime d"
  by (auto simp: strptime_def Let_def split: list.splits if_splits)

lemma canonical_dates_add_event_description:
  assumes "canonical_dates (bot_db b)"
    and "\<forall>d. ud_event_date (user_data b) = Some d \<longrightarrow> valid_datetime d"
  shows "canonical_dates (bot_db (snd (add_event_description ok t b)))"
proof (cases "ud_event_date (user_data b)")
  case None
  then show ?thesis using assms(1)
    by (simp add: add_event_description_def reply_text_def Let_def split: option.splits)
next
  case (Some d)
  then have "valid_datetime d" using assms(2) by simp
  then have "canonical_dates (snd (add_event ok (bot_db b) n d descr))" for n descr
    using assms(1) by (rule canonical_dates_add_event)
  then show ?thesis using assms(1) Some
    by (auto simp: add_event_description_def reply_text_def Let_def
          split: option.splits prod.splits bool.splits)
       (metis snd_conv)+
qed

text \<open>
  Claim C2. On a table whose dates are the \<open>isoformat()\<close> strings that \<open>add_event\<close>
  writes, and with a library whose \<open>fromisoformat\<close> reads such strings back,
  \<open>get_upcoming_events\<close> without a window returns only events of rows that
  are not notified and whose date is not before \<open>now\<close>, in ascending order of date; and
  once \<open>mark_event_notified n d\<close> has been carried out, no later call returns an event
  of name \<open>n\<close> and date \<open>d\<close>.
\<close>

theorem due_events_unbounded:
  assumes "valid_datetime now" and "canonical_dates db" and "reads_isoformat lib"
  shows "\<exists>evs. get_upcoming_events lib True now None db = Inr evs
    \<and> (\<forall>e \<in> set evs. dt_le now (evt_date e)
          \<and> (\<exists>r \<in> set (events db). \<not> notified r \<and> ev_name r = evt_name e
                \<and> event_date r = isoformat (evt_date e)))
    \<and> sorted_wrt dt_le (map evt_date evs)
    \<and> (\<forall>n d now' evs'.
          get_upcoming_events lib True now' None (snd (mark_event_notified True db n d)) = Inr evs'
          \<longrightarrow> fst (mark_event_notified True db n d)
              \<and> (\<forall>e \<in> set evs'. \<not> (evt_name e = n \<and> evt_date e = d)))"
proof -
  obtain evs where evs: "get_upcoming_events lib True now None db = Inr evs"
    "\<forall>e \<in> set evs. dt_le now (evt_date e)
          \<and> (\<exists>r \<in> set (events db). \<not> notified r \<and> ev_name r = evt_name e
                \<and> event_date r = isoformat (evt_date e))"
    "sorted_wrt dt_le (map evt_date evs)"
    using due_events_selected[OF assms] by blast
  have "fst (mark_event_notified True db n d)" for n d
    by (simp add: mark_event_notified_def)
  then show ?thesis using evs marked_event_excluded[OF assms(2) _ _ assms(3)] by blast
qed

theorem due_events_unbounded_witness:
  "valid_datetime \<lparr>year = 2025, month = 1, day = 1, hour = 0, minute = 0, second = 0, microsecond = 5\<rparr>
   \<and> canonical_dates \<lparr>company_info = [], contacts = [],
      events = [\<lparr>ev_name = str_of ''Launch'', event_date = str_of ''2030-01-01T09:00:00'',
                  description = Some [], notified = False\<rparr>,
                \<lparr>ev_name = str_of ''Demo'', event_date = str_of ''2029-06-01T18:30:00'',
                  description = None, notified = False\<rparr>,
                \<lparr>ev_name = str_of ''Past'', event_date = str_of ''2020-06-01T18:30:00'',
                  description = None, notified = False\<rparr>],
      digests = []\<rparr>
   \<and> get_upcoming_events model_library True \<lparr>year = 2025, month = 1, day = 1, hour = 0, minute = 0, second = 0, microsecond = 5\<rparr> None \<lparr>company_info = [], contacts = [],
      events = [\<lparr>ev_name = str_of ''Launch'', event_date = str_of ''2030-01-01T09:00:00'',
                  description = Some [], notified = False\<rparr>,
                \<lparr>ev_name = str_of ''Demo'', event_date = str_of ''2029-06-01T18:30:00'',
                  description = None, notified = False\<rparr>,
                \<lparr>ev_name = str_of ''Past'', event_date = str_of ''2020-06-01T18:30:00'',
                  description = None, notified = False\<rparr>],
      digests = []\<rparr> = Inr [\<lparr>evt_name = str_of ''Demo'',
        evt_date = \<lparr>year = 2029, month = 6, day = 1, hour = 18, minute = 30, second = 0, microsecond = 0\<rparr>,
        evt_description = []\<rparr>, \<lparr>evt_name = str_of ''Launch'',
        evt_date = \<lparr>year = 2030, month = 1, day = 1, hour = 9, minute = 0, second = 0, microsecond = 0\<rparr>,
        evt_description = []\<rparr>]
   \<and> sorted_wrt dt_le (map evt_date [\<lparr>evt_name = str_of ''Demo'',
        evt_date = \<lparr>year = 2029, month = 6, day = 1, hour = 18, minute = 30, second = 0, microsecond = 0\<rparr>,
        evt_description = []\<rparr>, \<lparr>evt_name = str_of ''Launch'',
        evt_date = \<lparr>year = 2030, month = 1, day = 1, hour = 9, minute = 0, second = 0, microsecond = 0\<rparr>,
        evt_description = []\<rparr>])
   \<and> get_upcoming_events model_library True \<lparr>year = 2025, month = 1, day = 1, hour = 0, minute = 0, second = 0, microsecond = 5\<rparr> None
        (snd (mark_event_notified True \<lparr>company_info = [], contacts = [],
      events = [\<lparr>ev_name = str_of ''Launch'', event_date = str_of ''2030-01-01T09:00:00'',
                  description = Some [], notified = False\<rparr>,
                \<lparr>ev_name = str_of ''Demo'', event_date = str_of ''2029-06-01T18:30:00'',
                  description = None, notified = False\<rparr>,
                \<lparr>ev_name = str_of ''Past'', event_date = str_of ''2020-06-01T18:30:00'',
                  description = None, notified = False\<rparr>],
      digests = []\<rparr> (str_of ''Launch'') \<lparr>year = 2030, month = 1, day = 1, hour = 9, minute = 0, second = 0, microsecond = 0\<rparr>)) = Inr [\<lparr>evt_name = str_of ''Demo'',
        evt_date = \<lparr>year = 2029, month = 6, day = 1, hour = 18, minute = 30, second = 0, microsecond = 0\<rparr>,
        evt_description = []\<rparr>]"
proof -
  let ?db = "\<lparr>company_info = [], contacts = [],
      events = [\<lparr>ev_name = str_of ''Launch'', event_date = str_of ''2030-01-01T09:00:00'',
                  description = Some [], notified = False\<rparr>,
                \<lparr>ev_name = str_of ''Demo'', event_date = str_of ''2029-06-01T18:30:00'',
                  description = None, notified = False\<rparr>,
                \<lparr>ev_name = str_of ''Past'', event_date = str_of ''2020-06-01T18:30:00'',
                  description = None, notified = False\<rparr>],
      digests = []\<rparr>"
  let ?now = "\<lparr>year = 2025, month = 1, day = 1, hour = 0, minute = 0, second = 0, microsecond = 5\<rparr>"
  have h1: "valid_datetime ?now" by (simp add: date_eval)
  have h2: "canonical_dates ?db" by (simp add: canonical_dates_def date_eval)
  have r1: "get_upcoming_events model_library True ?now None ?db = Inr [\<lparr>evt_name = str_of ''Demo'',
        evt_date = \<lparr>year = 2029, month = 6, day = 1, hour = 18, minute = 30, second = 0, microsecond = 0\<rparr>,
        evt_description = []\<rparr>, \<lparr>evt_name = str_of ''Launch'',
        evt_date = \<lparr>year = 2030, month = 1, day = 1, hour = 9, minute = 0, second = 0, microsecond = 0\<rparr>,
        evt_description = []\<rparr>]"
    by (simp add: get_upcoming_events_def date_eval model_library_def)
  have r2: "get_upcoming_events model_library True ?now None
        (snd (mark_event_notified True ?db (str_of ''Launch'') \<lparr>year = 2030, month = 1, day = 1, hour = 9, minute = 0, second = 0, microsecond = 0\<rparr>)) = Inr [\<lparr>evt_name = str_of ''Demo'',
        evt_date = \<lparr>year = 2029, month = 6, day = 1, hour = 18, minute = 30, second = 0, microsecond = 0\<rparr>,
        evt_description = []\<rparr>]"
    by (simp add: get_upcoming_events_def mark_event_notified_def date_eval model_library_def)
  have "sorted_wrt dt_le (map evt_date [\<lparr>evt_name = str_of ''Demo'',
        evt_date = \<lparr>year = 2029, month = 6, day = 1, hour = 18, minute = 30, second = 0, microsecond = 0\<rparr>,
        evt_description = []\<rparr>, \<lparr>evt_name = str_of ''Launch'',
        evt_date = \<lparr>year = 2030, month = 1, day = 1, hour = 9, minute = 0, second = 0, microsecond = 0\<rparr>,
        evt_description = []\<rparr>])"
    using due_events_unbounded[OF h1 h2 model_library_reads_isoformat] r1 by auto
  then show ?thesis using h1 h2 r1 r2 by blast
qed

text \<open>
  A row whose date the library parses is not skipped: its event is in the result of
  the loop.
\<close>

lemma events_loop_keeps:
  assumes "r \<in> set rows" "fromisoformat lib (event_date r) = Some d"
  shows "\<lparr>evt_name = ev_name r, evt_date = d,
           evt_description = (case description r of None \<Rightarrow> [] | Some t \<Rightarrow> t)\<rparr>
         \<in> set (events_loop lib rows)"
  using assms by (induction rows) (auto split: option.splits)

text \<open>
  Claim C10. Whatever spellings \<open>datetime.fromisoformat\<close> reads: a row whose stored
  date it does not parse has no effect on \<open>get_upcoming_events\<close>. The method returns
  what it returns on the table without that row, and without a window it always
  returns a list, each event of which comes from a row whose date parsed.
\<close>

theorem corrupt_event_dates_skipped:
  assumes "fromisoformat lib (event_date r) = None" and "events db = xs @ [r] @ ys"
  shows "get_upcoming_events lib ok now days db
           = get_upcoming_events lib ok now days (db\<lparr>events := xs @ ys\<rparr>)
    \<and> (\<exists>evs. get_upcoming_events lib ok now None db = Inr evs
          \<and> (\<forall>e \<in> set evs. \<exists>x \<in> set (xs @ ys).
                fromisoformat lib (event_date x) = Some (evt_date e) \<and> evt_name e = ev_name x))"
proof -
  have eq: "get_upcoming_events lib ok now days db
           = get_upcoming_events lib ok now days (db\<lparr>events := xs @ ys\<rparr>)" for days
    by (rule unparsable_row_skipped[OF assms])
  have sel: "\<exists>x \<in> set (xs @ ys). fromisoformat lib (event_date x) = Some (evt_date e) \<and> evt_name e = ev_name x"
    if e_in: "e \<in> set (events_loop lib (sort_key event_date
         [x \<leftarrow> xs @ ys. isoformat now \<le> event_date x \<and> \<not> notified x]))" for e
    using events_loop_set[OF e_in] by auto
  have "\<exists>evs. get_upcoming_events lib ok now None (db\<lparr>events := xs @ ys\<rparr>) = Inr evs
          \<and> (\<forall>e \<in> set evs. \<exists>x \<in> set (xs @ ys).
                fromisoformat lib (event_date x) = Some (evt_date e) \<and> evt_name e = ev_name x)"
  proof (cases ok)
    case True
    have "get_upcoming_events lib True now None (db\<lparr>events := xs @ ys\<rparr>)
        = Inr (events_loop lib (sort_key event_date
            [x \<leftarrow> xs @ ys. isoformat now \<le> event_date x \<and> \<not> notified x]))"
      by (simp add: get_upcoming_events_def Let_def)
    then show ?thesis using sel by (simp add: True)
  next
    case False
    then show ?thesis by (simp add: get_upcoming_events_def)
  qed
  then show ?thesis using eq by simp
qed

theorem corrupt_event_dates_skipped_witness:
  "fromisoformat model_library (str_of ''25.12.2029 15:00'') = None
   \<and> get_upcoming_events model_library True \<lparr>year = 2025, month = 1, day = 1, hour = 0, minute = 0, second = 0, microsecond = 5\<rparr> None
       \<lparr>company_info = [], contacts = [],
        events = [\<lparr>ev_name = str_of ''Launch'', event_date = str_of ''2030-01-01T09:00:00'',
                    description = Some [], notified = False\<rparr>,
                  \<lparr>ev_name = str_of ''Party'', event_date = str_of ''25.12.2029 15:00'',
                    description = None, notified = False\<rparr>,
                  \<lparr>ev_name = str_of ''Demo'', event_date = str_of ''2029-06-01T18:30:00'',
                    description = None, notified = False\<rparr>],
        digests = []\<rparr>
     = Inr [\<lparr>evt_name = str_of ''Demo'',
        evt_date = \<lparr>year = 2029, month = 6, day = 1, hour = 18, minute = 30, second = 0, microsecond = 0\<rparr>,
        evt_description = []\<rparr>, \<lparr>evt_name = str_of ''Launch'',
        evt_date = \<lparr>year = 2030, month = 1, day = 1, hour = 9, minute = 0, second = 0, microsecond = 0\<rparr>,
        evt_description = []\<rparr>]"
proof -
  let ?r = "\<lparr>ev_name = str_of ''Party'', event_date = str_of ''25.12.2029 15:00'',
                    description = None, notified = False\<rparr>"
  let ?xs = "[\<lparr>ev_name = str_of ''Launch'', event_date = str_of ''2030-01-01T09:00:00'',
                    description = Some [], notified = False\<rparr>]"
  let ?ys = "[\<lparr>ev_name = str_of ''Demo'', event_date = str_of ''2029-06-01T18:30:00'',
                    description = None, notified = False\<rparr>]"
  let ?db = "\<lparr>company_info = [], contacts = [], events = ?xs @ [?r] @ ?ys, digests = []\<rparr>"
  have h1: "fromisoformat model_library (event_date ?r) = None"
    by (simp add: date_eval model_library_def)
  have h2: "events ?db = ?xs @ [?r] @ ?ys" by simp
  have "get_upcoming_events model_library True \<lparr>year = 2025, month = 1, day = 1, hour = 0, minute = 0, second = 0, microsecond = 5\<rparr> None (?db\<lparr>events := ?xs @ ?ys\<rparr>) = Inr [\<lparr>evt_name = str_of ''Demo'',
        evt_date = \<lparr>year = 2029, month = 6, day = 1, hour = 18, minute = 30, second = 0, microsecond = 0\<rparr>,
        evt_description = []\<rparr>, \<lparr>evt_name = str_of ''Launch'',
        evt_date = \<lparr>year = 2030, month = 1, day = 1, hour = 9, minute = 0, second = 0, microsecond = 0\<rparr>,
        evt_description = []\<rparr>]"
    by (simp add: get_upcoming_events_def date_eval model_library_def)
  then show ?thesis
    using h1 corrupt_event_dates_skipped[OF h1 h2, of True "\<lparr>year = 2025, month = 1, day = 1, hour = 0, minute = 0, second = 0, microsecond = 5\<rparr>" None] by simp
qed

subsection \<open>The dialogs\<close>

lemmas strptime_eval = strptime_def strptime_matches_def directive_d_def directive_m_def
  directive_Y_def directive_H_def directive_M_def two_def one_def cls_def lit_def spaces1_def
  isspace_def str_of_def valid_datetime_def days_in_month_def is_leap_def

lemmas qa_eval = answer_received_def lower_def lower_cp_def question_label_def answer_label_def
  re_split_answer_def re_sub_question_def re_ignorecase_eq_def casefix_def strip_def isspace_def
  str_of_def reply_text_def

lemma fst_question_received: "fst (question_received lib ok t b) = END"
  by (simp add: question_received_def split: option.splits)

lemma fst_answer_received: "fst (answer_received lib ok t b) = END"
  by (simp add: answer_received_def Let_def split: list.splits prod.splits bool.splits)

lemma fst_add_contact_info: "fst (add_contact_info ok t b) = END"
  by (simp add: add_contact_info_def split: option.splits prod.splits bool.splits)

lemma fst_add_event_description: "fst (add_event_description ok t b) = END"
  by (simp add: add_event_description_def Let_def split: option.splits prod.splits bool.splits)

lemma fst_add_digest_received: "fst (add_digest_received ok ts t b) = END"
  by (simp add: add_digest_received_def split: prod.splits bool.splits)

lemma conv_step_same_state:
  assumes "conv_step lib ok ts f (Some st) (Text t) b = Some (Some st, b')"
  shows "f = event_conv \<and> st = ADDING_EVENT_DATE \<and> strptime lib t = None"
proof -
  obtain callback where cb: "states f st = Some callback"
    and r: "after (callback lib ok ts t b) = (Some st, b')"
    using assms by (auto simp: conv_step_def split: option.splits)
  from r have st: "fst (callback lib ok ts t b) = st" "st \<noteq> END"
    by (auto simp: after_def split: if_splits)
  show ?thesis
  proof (cases f; cases st)
  qed (use cb st in \<open>auto simp: fst_question_received fst_answer_received fst_add_contact_info
         fst_add_event_description fst_add_digest_received add_contact_name_def
         add_event_name_def add_event_date_def split: option.splits\<close>)
qed

lemma strptime_example:
  assumes "ascii_digits lib"
  shows "strptime lib (str_of ''25.12.2024 15:00'') = Some \<lparr>year = 2024, month = 12, day = 25, hour = 15, minute = 0, second = 0, microsecond = 0\<rparr>"
    and "strptime lib (str_of ''2024-12-25'') = None"
  by (simp_all add: strptime_eval decimal_ascii[OF assms])

text \<open>
  A decimal digit beyond Basic Latin is read as the library reads it: with the
  Arabic-Indic digit five (1637) for the second digit of the day, the text parses to
  the same date.
\<close>

lemma strptime_unicode_digit:
  assumes "ascii_digits lib" "decimal lib 1637 = Some 5"
  shows "strptime lib ([50, 1637] @ str_of ''.12.2024 15:00'') = Some \<lparr>year = 2024, month = 12, day = 25, hour = 15, minute = 0, second = 0, microsecond = 0\<rparr>"
  by (simp add: strptime_eval decimal_ascii[OF assms(1)] assms(2))

text \<open>
  Claim C3. In the date step of the dialog that adds an event, the text
  \<open>25.12.2024 15:00\<close> parses to day 25, month 12, year 2024, hour 15, minute 0
  (the digits below 128 being \<open>0\<close> to \<open>9\<close>); whatever the library's digits are, a
  text that parses takes the conversation on to the description step with the date
  kept in \<open>user_data\<close>, and a text that does not parse, such as \<open>2024-12-25\<close>,
  leaves the conversation in the date step. No other step of any of the five
  conversations can leave the conversation in the state it was in.
\<close>

theorem event_date_step:
  "(ascii_digits lib \<longrightarrow>
      strptime lib (str_of ''25.12.2024 15:00'') = Some \<lparr>year = 2024, month = 12, day = 25, hour = 15, minute = 0, second = 0, microsecond = 0\<rparr>
      \<and> strptime lib (str_of ''2024-12-25'') = None)
   \<and> (\<forall>d. strptime lib text = Some d \<longrightarrow>
          add_event_date lib text b =
            (ADDING_EVENT_DESCRIPTION,
             reply_text EventDescriptionPrompt
               (b\<lparr>user_data := (user_data b)\<lparr>ud_event_date := Some d\<rparr>\<rparr>)))
   \<and> (strptime lib text = None \<longrightarrow>
          add_event_date lib text b = (ADDING_EVENT_DATE, reply_text BadDateFormat b)
          \<and> conv_step lib ok ts event_conv (Some ADDING_EVENT_DATE) (Text text) b
              = Some (Some ADDING_EVENT_DATE, reply_text BadDateFormat b))
   \<and> (\<forall>f st t b'. conv_step lib ok ts f (Some st) (Text t) b = Some (Some st, b') \<longrightarrow>
          f = event_conv \<and> st = ADDING_EVENT_DATE \<and> strptime lib t = None)"
proof -
  have "conv_step lib ok ts event_conv (Some ADDING_EVENT_DATE) (Text text) b
              = Some (Some ADDING_EVENT_DATE, reply_text BadDateFormat b)"
    if "strptime lib text = None"
    using that by (simp add: conv_step_def add_event_date_def after_def)
  then show ?thesis
    using conv_step_same_state[of lib ok ts _ _ _ b] strptime_example[of lib]
    by (simp add: add_event_date_def)
qed

theorem event_date_step_witness:
  "conv_step model_library True 0 event_conv (Some ADDING_EVENT_DATE)
       (Text (str_of ''2024-12-25'')) \<lparr>bot_db = \<lparr>company_info = [], contacts = [], events = [], digests = []\<rparr>,
        user_data = clear, sent = []\<rparr>
     = Some (Some ADDING_EVENT_DATE, reply_text BadDateFormat \<lparr>bot_db = \<lparr>company_info = [], contacts = [], events = [], digests = []\<rparr>,
        user_data = clear, sent = []\<rparr>)
   \<and> add_event_date model_library (str_of ''25.12.2024 15:00'') \<lparr>bot_db = \<lparr>company_info = [], contacts = [], events = [], digests = []\<rparr>,
        user_data = clear, sent = []\<rparr>
     = (ADDING_EVENT_DESCRIPTION,
        reply_text EventDescriptionPrompt
          (\<lparr>bot_db = \<lparr>company_info = [], contacts = [], events = [], digests = []\<rparr>,
        user_data = clear, sent = []\<rparr>\<lparr>user_data := (user_data \<lparr>bot_db = \<lparr>company_info = [], contacts = [], events = [], digests = []\<rparr>,
        user_data = clear, sent = []\<rparr>)\<lparr>ud_event_date := Some \<lparr>year = 2024, month = 12, day = 25, hour = 15, minute = 0, second = 0, microsecond = 0\<rparr>\<rparr>\<rparr>))"
proof -
  let ?b0 = "\<lparr>bot_db = \<lparr>company_info = [], contacts = [], events = [], digests = []\<rparr>,
        user_data = clear, sent = []\<rparr>"
  have h1: "strptime model_library (str_of ''2024-12-25'') = None"
    and h2: "strptime model_library (str_of ''25.12.2024 15:00'') = Some \<lparr>year = 2024, month = 12, day = 25, hour = 15, minute = 0, second = 0, microsecond = 0\<rparr>"
    using event_date_step[of model_library] model_library_ascii_digits by simp_all
  show ?thesis
    using h1 h2
      event_date_step[of model_library "str_of ''2024-12-25''" ?b0 True 0]
      event_date_step[of model_library "str_of ''25.12.2024 15:00''" ?b0 True 0]
    by simp
qed

text \<open>
  Claim C4, as amended. The two labels are the words of the program, not their English
  translations. The text made of the question label, \<open>: What is X? \<close>, the answer
  label and \<open>: It is Y.\<close> is parsed to the question \<open>What is X?\<close> and the answer
  \<open>It is Y.\<close>, and the pair is written with \<open>add_company_info\<close>. A text whose
  lower case lacks one of the two words is refused with the format error; so is one in
  which the answer label is not followed by a colon; one whose question or answer is
  empty after trimming is refused as empty. In each case nothing is written, and the
  conversation always ends.
\<close>

theorem answer_received_single_shot:
  "answer_received lib True ([1042, 1086, 1087, 1088, 1086, 1089, 58, 32] @ str_of ''What is X? ''
        @ [1054, 1090, 1074, 1077, 1090, 58, 32] @ str_of ''It is Y.'') b
     = (END, reply_text AnswerAdded
          (b\<lparr>bot_db := snd (add_company_info lib True (bot_db b)
                               (str_of ''What is X?'') (str_of ''It is Y.''))\<rparr>))
   \<and> (\<not> contains (lower text) question_label \<or> \<not> contains (lower text) answer_label \<longrightarrow>
         answer_received lib ok text b = (END, reply_text BadFormat b))
   \<and> (contains (lower text) question_label \<and> contains (lower text) answer_label
        \<and> length (re_split_answer text) \<noteq> 2 \<longrightarrow>
         answer_received lib ok text b = (END, reply_text BadFormatRetry b))
   \<and> (\<forall>qp ap. contains (lower text) question_label \<and> contains (lower text) answer_label
        \<and> re_split_answer text = [qp, ap]
        \<and> (strip (re_sub_question qp) = [] \<or> strip ap = []) \<longrightarrow>
         answer_received lib ok text b = (END, reply_text EmptyQuestionOrAnswer b))
   \<and> fst (answer_received lib ok text b) = END"
proof -
  have "answer_received lib True ([1042, 1086, 1087, 1088, 1086, 1089, 58, 32] @ str_of ''What is X? ''
        @ [1054, 1090, 1074, 1077, 1090, 58, 32] @ str_of ''It is Y.'') b
     = (END, reply_text AnswerAdded
          (b\<lparr>bot_db := snd (add_company_info lib True (bot_db b)
                               (str_of ''What is X?'') (str_of ''It is Y.''))\<rparr>))"
    by (simp add: qa_eval add_company_info_def)
  moreover have "answer_received lib ok text b = (END, reply_text BadFormatRetry b)"
    if "contains (lower text) question_label" "contains (lower text) answer_label"
      "length (re_split_answer text) \<noteq> 2"
    using that by (auto simp: answer_received_def Let_def split: list.splits)
  moreover have "answer_received lib ok text b = (END, reply_text EmptyQuestionOrAnswer b)"
    if "contains (lower text) question_label" "contains (lower text) answer_label"
      "re_split_answer text = [qp, ap]" "strip (re_sub_question qp) = [] \<or> strip ap = []"
    for qp ap
    using that by (auto simp: answer_received_def Let_def)
  moreover have "answer_received lib ok text b = (END, reply_text BadFormat b)"
    if "\<not> contains (lower text) question_label \<or> \<not> contains (lower text) answer_label"
    using that by (auto simp: answer_received_def Let_def)
  ultimately show ?thesis using fst_answer_received[of lib ok "text" b] by blast
qed

theorem answer_received_single_shot_witness:
  "answer_received model_library True (str_of ''no labels here'') \<lparr>bot_db = \<lparr>company_info = [], contacts = [], events = [], digests = []\<rparr>,
        user_data = clear, sent = []\<rparr> = (END, reply_text BadFormat \<lparr>bot_db = \<lparr>company_info = [], contacts = [], events = [], digests = []\<rparr>,
        user_data = clear, sent = []\<rparr>)
   \<and> answer_received model_library True
        ([1042, 1086, 1087, 1088, 1086, 1089, 58, 32, 1054, 1090, 1074, 1077, 1090, 58, 32]
           @ str_of ''It is Y.'') \<lparr>bot_db = \<lparr>company_info = [], contacts = [], events = [], digests = []\<rparr>,
        user_data = clear, sent = []\<rparr>
      = (END, reply_text EmptyQuestionOrAnswer \<lparr>bot_db = \<lparr>company_info = [], contacts = [], events = [], digests = []\<rparr>,
        user_data = clear, sent = []\<rparr>)
   \<and> answer_received model_library True
        ([1042, 1086, 1087, 1088, 1086, 1089, 32] @ str_of ''X ''
           @ [1054, 1090, 1074, 1077, 1090, 32] @ str_of ''Y'') \<lparr>bot_db = \<lparr>company_info = [], contacts = [], events = [], digests = []\<rparr>,
        user_data = clear, sent = []\<rparr>
      = (END, reply_text BadFormatRetry \<lparr>bot_db = \<lparr>company_info = [], contacts = [], events = [], digests = []\<rparr>,
        user_data = clear, sent = []\<rparr>)"
proof -
  let ?b0 = "\<lparr>bot_db = \<lparr>company_info = [], contacts = [], events = [], digests = []\<rparr>,
        user_data = clear, sent = []\<rparr>"
  let ?t1 = "str_of ''no labels here''"
  let ?t2 = "[1042, 1086, 1087, 1088, 1086, 1089, 58, 32, 1054, 1090, 1074, 1077, 1090, 58, 32]
           @ str_of ''It is Y.''"
  let ?t3 = "[1042, 1086, 1087, 1088, 1086, 1089, 32] @ str_of ''X ''
           @ [1054, 1090, 1074, 1077, 1090, 32] @ str_of ''Y''"
  have h1: "\<not> contains (lower ?t1) question_label \<or> \<not> contains (lower ?t1) answer_label"
    by (simp add: qa_eval)
  have h2: "contains (lower ?t2) question_label \<and> contains (lower ?t2) answer_label
      \<and> re_split_answer ?t2 = [[1042, 1086, 1087, 1088, 1086, 1089, 58, 32], str_of ''It is Y.'']
      \<and> (strip (re_sub_question [1042, 1086, 1087, 1088, 1086, 1089, 58, 32]) = []
          \<or> strip (str_of ''It is Y.'') = [])"
    by (simp add: qa_eval)
  have h3: "contains (lower ?t3) question_label \<and> contains (lower ?t3) answer_label
      \<and> length (re_split_answer ?t3) \<noteq> 2"
    by (simp add: qa_eval)
  show ?thesis
    using h1 h2 h3
      answer_received_single_shot[of model_library ?b0 ?t1 True]
      answer_received_single_shot[of model_library ?b0 ?t2 True]
      answer_received_single_shot[of model_library ?b0 ?t3 True]
    by blast
qed

text \<open>
  With the English labels of the specification the text is refused and nothing is
  written.
\<close>

theorem answer_received_english_labels_counterexample:
  "answer_received model_library True (str_of ''Question: What is X? Answer: It is Y.'') \<lparr>bot_db = \<lparr>company_info = [], contacts = [], events = [], digests = []\<rparr>,
        user_data = clear, sent = []\<rparr>
     = (END, reply_text BadFormat \<lparr>bot_db = \<lparr>company_info = [], contacts = [], events = [], digests = []\<rparr>,
        user_data = clear, sent = []\<rparr>)
   \<and> bot_db (snd (answer_received model_library True (str_of ''Question: What is X? Answer: It is Y.'') \<lparr>bot_db = \<lparr>company_info = [], contacts = [], events = [], digests = []\<rparr>,
        user_data = clear, sent = []\<rparr>))
     = \<lparr>company_info = [], contacts = [], events = [], digests = []\<rparr>"
  by (simp add: qa_eval)

text \<open>
  Claim C7. When the write of the last step fails, the conversation ends, but the
  collected values stay in \<open>user_data\<close>: \<open>add_contact_info\<close> and
  \<open>add_event_description\<close> clear \<open>user_data\<close> only in the branch of the successful
  write. After the name \<open>Bob\<close> and a failed write, \<open>contact_name\<close> is still
  \<open>Bob\<close>.
\<close>

theorem failed_write_keeps_user_data:
  "add_contact_info False text b = (END, reply_text ContactAddError b)
   \<and> fst (add_event_description False text b) = END
   \<and> user_data (snd (add_event_description False text b)) = user_data b
   \<and> add_contact_info False (str_of ''+1 555'') (snd (add_contact_name (str_of ''Bob'') \<lparr>bot_db = \<lparr>company_info = [], contacts = [], events = [], digests = []\<rparr>,
        user_data = clear, sent = []\<rparr>))
      = (END, \<lparr>bot_db = \<lparr>company_info = [], contacts = [], events = [], digests = []\<rparr>,
                user_data = \<lparr>contact_name = Some (str_of ''Bob''), event_name = None,
                              ud_event_date = None\<rparr>,
                sent = [ContactInfoPrompt, ContactAddError]\<rparr>)"
proof -
  have a: "add_contact_info False t c = (END, reply_text ContactAddError c)" for t c
    by (simp add: add_contact_info_def add_contact_def split: option.splits)
  have "user_data (snd (add_event_description False text b)) = user_data b"
    by (simp add: add_event_description_def add_event_def reply_text_def Let_def
          split: option.splits)
  moreover have "add_contact_info False (str_of ''+1 555'') (snd (add_contact_name (str_of ''Bob'') \<lparr>bot_db = \<lparr>company_info = [], contacts = [], events = [], digests = []\<rparr>,
        user_data = clear, sent = []\<rparr>))
      = (END, \<lparr>bot_db = \<lparr>company_info = [], contacts = [], events = [], digests = []\<rparr>,
                user_data = \<lparr>contact_name = Some (str_of ''Bob''), event_name = None,
                              ud_event_date = None\<rparr>,
                sent = [ContactInfoPrompt, ContactAddError]\<rparr>)"
    unfolding a by (simp add: add_contact_name_def reply_text_def clear_def)
  ultimately show ?thesis using a fst_add_event_description by simp
qed

text \<open>
  Claim C8. \<open>/cancel\<close> ends the conversation from every state and writes nothing to
  the database, but it leaves \<open>user_data\<close> as it is: after \<open>/add_contact\<close>,
  \<open>Bob\<close> and \<open>/cancel\<close> no contact is stored and \<open>contact_name\<close> is still
  \<open>Bob\<close>.
\<close>

theorem cancel_keeps_user_data:
  "conv_step lib ok ts f (Some st) (Command ''cancel'') b = Some (None, reply_text Cancelled b)
   \<and> conv_step lib ok ts contact_conv None (Command ''add_contact'') \<lparr>bot_db = \<lparr>company_info = [], contacts = [], events = [], digests = []\<rparr>,
        user_data = clear, sent = []\<rparr>
      = Some (Some ADDING_CONTACT_NAME, reply_text ContactNamePrompt \<lparr>bot_db = \<lparr>company_info = [], contacts = [], events = [], digests = []\<rparr>,
        user_data = clear, sent = []\<rparr>)
   \<and> conv_step lib ok ts contact_conv (Some ADDING_CONTACT_NAME) (Text (str_of ''Bob''))
        (reply_text ContactNamePrompt \<lparr>bot_db = \<lparr>company_info = [], contacts = [], events = [], digests = []\<rparr>,
        user_data = clear, sent = []\<rparr>)
      = Some (Some ADDING_CONTACT_INFO,
          \<lparr>bot_db = \<lparr>company_info = [], contacts = [], events = [], digests = []\<rparr>,
           user_data = \<lparr>contact_name = Some (str_of ''Bob''), event_name = None,
                         ud_event_date = None\<rparr>,
           sent = [ContactNamePrompt, ContactInfoPrompt]\<rparr>)
   \<and> conv_step lib ok ts contact_conv (Some ADDING_CONTACT_INFO) (Command ''cancel'')
          \<lparr>bot_db = \<lparr>company_info = [], contacts = [], events = [], digests = []\<rparr>,
           user_data = \<lparr>contact_name = Some (str_of ''Bob''), event_name = None,
                         ud_event_date = None\<rparr>,
           sent = [ContactNamePrompt, ContactInfoPrompt]\<rparr>
      = Some (None,
          \<lparr>bot_db = \<lparr>company_info = [], contacts = [], events = [], digests = []\<rparr>,
           user_data = \<lparr>contact_name = Some (str_of ''Bob''), event_name = None,
                         ud_event_date = None\<rparr>,
           sent = [ContactNamePrompt, ContactInfoPrompt, Cancelled]\<rparr>)"
  by (simp add: conv_step_def cancel_def after_def reply_text_def add_contact_start_def
        add_contact_name_def clear_def)

subsection \<open>The daily digest\<close>

lemmas digest_eval = send_daily_digest_def get_recent_digests_def get_upcoming_events_def
  add_days_def next_day_def date_eval model_library_def

text \<open>
  Claim C5. \<open>send_daily_digest\<close> returns the database as it found it, whatever the
  library is: it never calls \<open>mark_event_notified\<close>. An event that one run lists is
  not marked, and a later run within the day lists it again (the two runs are computed
  with the library of the examples; the one date read is an \<open>isoformat()\<close> string).
\<close>

theorem daily_digest_marks_nothing:
  "fst (send_daily_digest lib ok_digests ok_events now d) = d
   \<and> send_daily_digest model_library True True \<lparr>year = 2024, month = 12, day = 31, hour = 10, minute = 0, second = 0, microsecond = 0\<rparr> \<lparr>company_info = [], contacts = [],
        events = [\<lparr>ev_name = str_of ''Launch'', event_date = str_of ''2025-01-01T09:00:00'',
                    description = Some [], notified = False\<rparr>],
        digests = []\<rparr> = (\<lparr>company_info = [], contacts = [],
        events = [\<lparr>ev_name = str_of ''Launch'', event_date = str_of ''2025-01-01T09:00:00'',
                    description = Some [], notified = False\<rparr>],
        digests = []\<rparr>, Some \<lparr>latest_digest = None, todays_events = [str_of ''Launch'']\<rparr>)
   \<and> send_daily_digest model_library True True \<lparr>year = 2025, month = 1, day = 1, hour = 8, minute = 0, second = 0, microsecond = 0\<rparr> (fst (send_daily_digest model_library True True \<lparr>year = 2024, month = 12, day = 31, hour = 10, minute = 0, second = 0, microsecond = 0\<rparr> \<lparr>company_info = [], contacts = [],
        events = [\<lparr>ev_name = str_of ''Launch'', event_date = str_of ''2025-01-01T09:00:00'',
                    description = Some [], notified = False\<rparr>],
        digests = []\<rparr>))
      = (\<lparr>company_info = [], contacts = [],
        events = [\<lparr>ev_name = str_of ''Launch'', event_date = str_of ''2025-01-01T09:00:00'',
                    description = Some [], notified = False\<rparr>],
        digests = []\<rparr>, Some \<lparr>latest_digest = None, todays_events = [str_of ''Launch'']\<rparr>)"
proof -
  have "fst (send_daily_digest lib ok_digests ok_events now d) = d"
    by (simp add: send_daily_digest_def Let_def split: sum.splits)
  moreover have r0: "send_daily_digest model_library True True \<lparr>year = 2024, month = 12, day = 31, hour = 10, minute = 0, second = 0, microsecond = 0\<rparr> \<lparr>company_info = [], contacts = [],
        events = [\<lparr>ev_name = str_of ''Launch'', event_date = str_of ''2025-01-01T09:00:00'',
                    description = Some [], notified = False\<rparr>],
        digests = []\<rparr> = (\<lparr>company_info = [], contacts = [],
        events = [\<lparr>ev_name = str_of ''Launch'', event_date = str_of ''2025-01-01T09:00:00'',
                    description = Some [], notified = False\<rparr>],
        digests = []\<rparr>, Some \<lparr>latest_digest = None, todays_events = [str_of ''Launch'']\<rparr>)"
    by (simp add: digest_eval)
  moreover have "send_daily_digest model_library True True \<lparr>year = 2025, month = 1, day = 1, hour = 8, minute = 0, second = 0, microsecond = 0\<rparr> \<lparr>company_info = [], contacts = [],
        events = [\<lparr>ev_name = str_of ''Launch'', event_date = str_of ''2025-01-01T09:00:00'',
                    description = Some [], notified = False\<rparr>],
        digests = []\<rparr> = (\<lparr>company_info = [], contacts = [],
        events = [\<lparr>ev_name = str_of ''Launch'', event_date = str_of ''2025-01-01T09:00:00'',
                    description = Some [], notified = False\<rparr>],
        digests = []\<rparr>, Some \<lparr>latest_digest = None, todays_events = [str_of ''Launch'']\<rparr>)"
    by (simp add: digest_eval)
  ultimately show ?thesis by simp
qed

end
